theory Spec2Isabelle
  imports Main "HOL-Library.Word"
begin

unbundle bit_operations_syntax

section \<open>Data model of src/rpc/rawtransaction.cpp\<close>

text \<open>
  The RPC handlers of \<^verbatim>\<open>rawtransaction.cpp\<close> are modelled from the point where
  their JSON arguments have been decoded: a handler takes the decoded transactions, the
  coins view and the key store, and returns either the value it would hand back to the
  RPC layer or the error it throws. Hex and JSON formatting of the result are left out;
  a result carries the values that would be formatted.
\<close>

type_synonym uint256 = "256 word"
type_synonym CScript = "8 word list"

datatype RPCErrorCode =
    RPC_INVALID_PARAMETER
  | RPC_INVALID_ADDRESS_OR_KEY
  | RPC_DESERIALIZATION_ERROR
  | RPC_INTERNAL_ERROR

text \<open>
  \<open>JSONRPCError\<close> is the exception the handlers throw. \<open>OutOfRange\<close> stands for an
  unchecked read past the end of a vector (\<^verbatim>\<open>operator[]\<close> or an iterator moved
  beyond \<^verbatim>\<open>end()\<close>), which C++ leaves undefined: the model makes it a result of
  its own, so that reaching such a read is visible. \<open>MalformedProof\<close> is the error kind
  of section 7 of the specification for a proof whose bitmask and hash list disagree.
\<close>

datatype error = JSONRPCError RPCErrorCode string | OutOfRange | MalformedProof

record COutPoint =
  outpoint_hash :: uint256
  outpoint_n :: "32 word"

record CTxIn =
  prevout :: COutPoint
  scriptSig :: CScript
  nSequence :: "32 word"

record CTxOut =
  nValue :: "64 word"
  scriptPubKey :: CScript

text \<open>
  \<^verbatim>\<open>CMutableTransactionBase\<close> with its two subclasses. The signing loops read and
  write \<open>vin\<close> and read \<open>vout\<close> only, so they are written once for every extension of
  the base record; the subclasses add the payload fields.
\<close>

record CMutableTransactionBase =
  nVersion :: "32 word"
  vin :: "CTxIn list"
  vout :: "CTxOut list"

record CMutableTransaction = CMutableTransactionBase +
  nLockTime :: "32 word"

record CMutableScCertificate = CMutableTransactionBase +
  scId :: uint256
  epochNumber :: "32 word"
  quality :: "64 word"
  endEpochBlockHash :: uint256
  scProof :: "8 word list"

subsection \<open>The coins view\<close>

text \<open>
  Modelled from the spec: \<^verbatim>\<open>CCoins\<close> and \<^verbatim>\<open>CCoinsViewCache\<close> (coins.h) are not
  part of the source at hand. Section 3 of the specification describes a resolved output
  as the locking script and value of a referenced (id, index), or not available when it
  was already spent, never existed, or the index is out of range. A \<open>CCoins\<close> entry is
  the output vector of one transaction, a spent output being \<open>None\<close>; the view maps a
  transaction id to its entry.
\<close>

record CCoins =
  coins_vout :: "CTxOut option list"

type_synonym CCoinsViewCache = "uint256 \<Rightarrow> CCoins option"

definition IsAvailable :: "CCoins \<Rightarrow> 32 word \<Rightarrow> bool" where
  "IsAvailable coins nPos =
     (unat nPos < length (coins_vout coins) \<and> coins_vout coins ! unat nPos \<noteq> None)"

text \<open>
  The test \<^verbatim>\<open>coins == NULL || !coins->IsAvailable(txin.prevout.n)\<close> of both signing
  loops, and the script \<^verbatim>\<open>coins->vout[txin.prevout.n].scriptPubKey\<close> read when the
  test fails.
\<close>

definition input_unavailable :: "CCoinsViewCache \<Rightarrow> CTxIn \<Rightarrow> bool" where
  "input_unavailable view txin =
     (case view (outpoint_hash (prevout txin)) of
        None \<Rightarrow> True
      | Some coins \<Rightarrow> \<not> IsAvailable coins (outpoint_n (prevout txin)))"

definition prevPubKey_of :: "CCoinsViewCache \<Rightarrow> CTxIn \<Rightarrow> CScript" where
  "prevPubKey_of view txin =
     (case view (outpoint_hash (prevout txin)) of
        None \<Rightarrow> []
      | Some coins \<Rightarrow>
          (case coins_vout coins ! unat (outpoint_n (prevout txin)) of
             None \<Rightarrow> []
           | Some txout \<Rightarrow> scriptPubKey txout))"

subsection \<open>Signer, combiner and verifier\<close>

text \<open>
  Modelled from the spec: \<^verbatim>\<open>SignSignature\<close>, \<^verbatim>\<open>CombineSignatures\<close>,
  \<^verbatim>\<open>VerifyScript\<close> and \<^verbatim>\<open>ScriptErrorString\<close> (script/sign.h,
  script/interpreter.h, script/script_error.h) are not part of the source at hand; they
  are parameters of the model, with the contracts of section 4.4 of the specification.
  \<open>SignSignature keystore prevPubKey tx i nHashType\<close> returns its boolean result and
  the unlocking script it leaves in input \<open>i\<close>; \<open>VerifyScript scriptSig prevPubKey tx i\<close>
  is the call with the fixed flags \<^verbatim>\<open>STANDARD_NONCONTEXTUAL_SCRIPT_VERIFY_FLAGS\<close> and
  the signature checker of \<open>(tx, i)\<close>, and returns the boolean and the script error.
\<close>

record ('ks, 'tx, 'se) script_engine =
  SignSignature :: "'ks \<Rightarrow> CScript \<Rightarrow> 'tx \<Rightarrow> nat \<Rightarrow> 32 word \<Rightarrow> bool \<times> CScript"
  CombineSignatures :: "CScript \<Rightarrow> 'tx \<Rightarrow> nat \<Rightarrow> CScript \<Rightarrow> CScript \<Rightarrow> CScript"
  VerifyScript :: "CScript \<Rightarrow> CScript \<Rightarrow> 'tx \<Rightarrow> nat \<Rightarrow> bool \<times> 'se"
  ScriptErrorString :: "'se \<Rightarrow> string"

text \<open>
  Modelled from the spec: the values of the sighash constants (script/interpreter.h) are
  not part of the source at hand. Section 6 of the specification names the selector's six
  symbols; the numbers are the protocol's.
\<close>

definition SIGHASH_ALL :: "32 word" where "SIGHASH_ALL = 1"
definition SIGHASH_NONE :: "32 word" where "SIGHASH_NONE = 2"
definition SIGHASH_SINGLE :: "32 word" where "SIGHASH_SINGLE = 3"
definition SIGHASH_ANYONECANPAY :: "32 word" where "SIGHASH_ANYONECANPAY = 0x80"

definition mapSigHashValues :: "(string \<times> 32 word) list" where
  "mapSigHashValues =
     [(''ALL'', SIGHASH_ALL),
      (''ALL|ANYONECANPAY'', SIGHASH_ALL OR SIGHASH_ANYONECANPAY),
      (''NONE'', SIGHASH_NONE),
      (''NONE|ANYONECANPAY'', SIGHASH_NONE OR SIGHASH_ANYONECANPAY),
      (''SINGLE'', SIGHASH_SINGLE),
      (''SINGLE|ANYONECANPAY'', SIGHASH_SINGLE OR SIGHASH_ANYONECANPAY)]"

text \<open>The fourth parameter of \<^verbatim>\<open>signrawtransaction\<close>: absent or null gives \<open>ALL\<close>.\<close>

definition parse_sighashtype :: "string option \<Rightarrow> error + 32 word" where
  "parse_sighashtype p =
     (case p of
        None \<Rightarrow> Inr SIGHASH_ALL
      | Some strHashType \<Rightarrow>
          (case map_of mapSigHashValues strHashType of
             Some v \<Rightarrow> Inr v
           | None \<Rightarrow> Inl (JSONRPCError RPC_INVALID_PARAMETER ''Invalid sighash param'')))"

definition fHashSingle :: "32 word \<Rightarrow> bool" where
  "fHashSingle nHashType = ((nHashType AND NOT SIGHASH_ANYONECANPAY) = SIGHASH_SINGLE)"

subsection \<open>Per-input errors\<close>

record TxInError =
  err_txid :: uint256
  err_vout :: "32 word"
  err_scriptSig :: CScript
  err_sequence :: "32 word"
  err_error :: string

definition TxInErrorToJSON :: "CTxIn \<Rightarrow> TxInError list \<Rightarrow> string \<Rightarrow> TxInError list" where
  "TxInErrorToJSON txin vErrorsRet strMessage =
     vErrorsRet @
       [\<lparr>err_txid = outpoint_hash (prevout txin),
         err_vout = outpoint_n (prevout txin),
         err_scriptSig = scriptSig txin,
         err_sequence = nSequence txin,
         err_error = strMessage\<rparr>]"

section \<open>The signing loops\<close>

text \<open>
  The state of a signing loop: the transaction being signed, the errors collected so
  far, and a ghost field \<open>signCalls\<close> listing the input indices at which the loop has
  called \<^verbatim>\<open>SignSignature\<close> (the source keeps no such list; it records which calls
  the loop makes).
\<close>

record 'tx sign_state =
  mergedTx :: 'tx
  vErrors :: "TxInError list"
  signCalls :: "nat list"

text \<open>The assignment \<^verbatim>\<open>tx.vin[i].scriptSig = s\<close>, for \<open>i\<close> below the number of inputs.\<close>

definition set_scriptSig ::
  "'m CMutableTransactionBase_scheme \<Rightarrow> nat \<Rightarrow> CScript \<Rightarrow> 'm CMutableTransactionBase_scheme" where
  "set_scriptSig tx i s = tx\<lparr>vin := (vin tx)[i := (vin tx ! i)\<lparr>scriptSig := s\<rparr>]\<rparr>"

text \<open>
  The merge loop of \<^verbatim>\<open>signrawtransaction\<close>:
  \<^verbatim>\<open>BOOST_FOREACH(const CMutableTransaction& txv, txVariants)
      txin.scriptSig = CombineSignatures(prevPubKey, mergedTx, i, txin.scriptSig, txv.vin[i].scriptSig);\<close>
  The read \<^verbatim>\<open>txv.vin[i]\<close> is unchecked.
\<close>

fun merge_variants ::
  "('ks, 'm CMutableTransactionBase_scheme, 'se) script_engine \<Rightarrow> CScript \<Rightarrow> nat \<Rightarrow>
   'm CMutableTransactionBase_scheme list \<Rightarrow> 'm CMutableTransactionBase_scheme \<Rightarrow>
   error + 'm CMutableTransactionBase_scheme" where
  "merge_variants E prevPubKey i [] tx = Inr tx"
| "merge_variants E prevPubKey i (txv # txvs) tx =
     (if i < length (vin txv) then
        merge_variants E prevPubKey i txvs
          (set_scriptSig tx i
             (CombineSignatures E prevPubKey tx i (scriptSig (vin tx ! i)) (scriptSig (vin txv ! i))))
      else Inl OutOfRange)"

text \<open>The verification that ends the body of both loops.\<close>

definition verify_input ::
  "('ks, 'tx, 'se) script_engine \<Rightarrow> CScript \<Rightarrow> nat \<Rightarrow> CTxIn \<Rightarrow> 'tx \<Rightarrow> TxInError list \<Rightarrow>
   TxInError list" where
  "verify_input E prevPubKey i txin tx errs =
     (case VerifyScript E (scriptSig txin) prevPubKey tx i of
        (ok, serror) \<Rightarrow>
          if \<not> ok then TxInErrorToJSON txin errs (ScriptErrorString E serror) else errs)"

text \<open>The body of the loop of \<^verbatim>\<open>signrawtransaction\<close> for input \<open>i\<close>.\<close>

definition sign_tx_input ::
  "('ks, 'm CMutableTransactionBase_scheme, 'se) script_engine \<Rightarrow> CCoinsViewCache \<Rightarrow> 'ks \<Rightarrow>
   32 word \<Rightarrow> 'm CMutableTransactionBase_scheme list \<Rightarrow>
   'm CMutableTransactionBase_scheme sign_state \<Rightarrow> nat \<Rightarrow>
   error + 'm CMutableTransactionBase_scheme sign_state" where
  "sign_tx_input E view keystore nHashType txVariants st i =
     (let txin = vin (mergedTx st) ! i in
      if input_unavailable view txin then
        Inr (st\<lparr>vErrors := TxInErrorToJSON txin (vErrors st) ''Input not found or already spent''\<rparr>)
      else
        let prevPubKey = prevPubKey_of view txin;
            tx1 = set_scriptSig (mergedTx st) i [];
            signs = (\<not> fHashSingle nHashType \<or> i < length (vout tx1));
            tx2 = (if signs
                   then set_scriptSig tx1 i (snd (SignSignature E keystore prevPubKey tx1 i nHashType))
                   else tx1);
            calls = (if signs then signCalls st @ [i] else signCalls st)
        in case merge_variants E prevPubKey i txVariants tx2 of
             Inl e \<Rightarrow> Inl e
           | Inr tx3 \<Rightarrow>
               Inr \<lparr>mergedTx = tx3,
                    vErrors = verify_input E prevPubKey i (vin tx3 ! i) tx3 (vErrors st),
                    signCalls = calls\<rparr>)"

lemma length_vin_set_scriptSig [simp]: "length (vin (set_scriptSig tx i s)) = length (vin tx)"
  by (simp add: set_scriptSig_def)

lemma vout_set_scriptSig [simp]: "vout (set_scriptSig tx i s) = vout tx"
  by (simp add: set_scriptSig_def)

lemma merge_variants_length:
  "merge_variants E prevPubKey i txvs tx = Inr tx' \<Longrightarrow> length (vin tx') = length (vin tx)"
  by (induction txvs arbitrary: tx) (auto split: if_splits)

lemma sign_tx_input_length:
  "sign_tx_input E view keystore nHashType txVariants st i = Inr st' \<Longrightarrow>
   length (vin (mergedTx st')) = length (vin (mergedTx st))"
  by (auto simp: sign_tx_input_def Let_def split: if_splits sum.splits
           dest!: merge_variants_length)

text \<open>
  \<^verbatim>\<open>for (unsigned int i = 0; i < mergedTx.vin.size(); i++)\<close>: the bound is read again
  at every turn.
\<close>

function sign_tx_loop ::
  "('ks, 'm CMutableTransactionBase_scheme, 'se) script_engine \<Rightarrow> CCoinsViewCache \<Rightarrow> 'ks \<Rightarrow>
   32 word \<Rightarrow> 'm CMutableTransactionBase_scheme list \<Rightarrow>
   'm CMutableTransactionBase_scheme sign_state \<Rightarrow> nat \<Rightarrow>
   error + 'm CMutableTransactionBase_scheme sign_state" where
  "sign_tx_loop E view keystore nHashType txVariants st i =
     (if i < length (vin (mergedTx st)) then
        (case sign_tx_input E view keystore nHashType txVariants st i of
           Inl e \<Rightarrow> Inl e
         | Inr st' \<Rightarrow> sign_tx_loop E view keystore nHashType txVariants st' (Suc i))
      else Inr st)"
  by pat_completeness auto
termination
  by (relation "measure (\<lambda>(E, view, keystore, nHashType, txVariants, st, i).
                  length (vin (mergedTx st)) - i)")
     (auto dest: sign_tx_input_length)

text \<open>
  What \<^verbatim>\<open>signrawtransaction\<close> and \<^verbatim>\<open>signrawcertificate\<close> return: the signed
  entity (hex-encoded by the source), the flag \<open>complete\<close>, and the key \<open>errors\<close>, which
  is present only when the error list is not empty.
\<close>

record 'tx sign_result =
  res_hex :: 'tx
  res_complete :: bool
  res_errors :: "TxInError list option"

definition sign_result_of :: "'tx sign_state \<Rightarrow> 'tx sign_result" where
  "sign_result_of st =
     (let fComplete = (vErrors st = []) in
      \<lparr>res_hex = mergedTx st,
       res_complete = fComplete,
       res_errors = (if vErrors st \<noteq> [] then Some (vErrors st) else None)\<rparr>)"

text \<open>
  \<^verbatim>\<open>signrawtransaction\<close>, from the decoded \<open>txVariants\<close> on. The view is the coins
  view after the \<open>prevtxs\<close> argument has been added to it, the key store the one chosen
  from the \<open>privatekeys\<close> argument or the wallet.
\<close>

definition signrawtransaction ::
  "('ks, 'm CMutableTransactionBase_scheme, 'se) script_engine \<Rightarrow> CCoinsViewCache \<Rightarrow> 'ks \<Rightarrow>
   'm CMutableTransactionBase_scheme list \<Rightarrow> string option \<Rightarrow>
   error + 'm CMutableTransactionBase_scheme sign_result" where
  "signrawtransaction E view keystore txVariants sighashtype =
     (case txVariants of
        [] \<Rightarrow> Inl (JSONRPCError RPC_DESERIALIZATION_ERROR ''Missing transaction'')
      | tx0 # _ \<Rightarrow>
          (case parse_sighashtype sighashtype of
             Inl e \<Rightarrow> Inl e
           | Inr nHashType \<Rightarrow>
               (case sign_tx_loop E view keystore nHashType txVariants
                       \<lparr>mergedTx = tx0, vErrors = [], signCalls = []\<rparr> 0 of
                  Inl e \<Rightarrow> Inl e
                | Inr st \<Rightarrow> Inr (sign_result_of st))))"

text \<open>
  The body of the loop of \<^verbatim>\<open>signrawcertificate\<close> for input \<open>i\<close>: the hash type is
  \<open>SIGHASH_ALL\<close>, the signer is called for every resolved input, and there is no merge
  loop (the handler decodes exactly one certificate).
\<close>

definition sign_cert_input ::
  "('ks, 'm CMutableTransactionBase_scheme, 'se) script_engine \<Rightarrow> CCoinsViewCache \<Rightarrow> 'ks \<Rightarrow>
   'm CMutableTransactionBase_scheme sign_state \<Rightarrow> nat \<Rightarrow>
   'm CMutableTransactionBase_scheme sign_state" where
  "sign_cert_input E view keystore st i =
     (let txin = vin (mergedTx st) ! i in
      if input_unavailable view txin then
        st\<lparr>vErrors := TxInErrorToJSON txin (vErrors st) ''Input not found or already spent''\<rparr>
      else
        let prevPubKey = prevPubKey_of view txin;
            nHashType = SIGHASH_ALL;
            tx1 = set_scriptSig (mergedTx st) i [];
            tx2 = set_scriptSig tx1 i (snd (SignSignature E keystore prevPubKey tx1 i nHashType))
        in \<lparr>mergedTx = tx2,
            vErrors = verify_input E prevPubKey i (vin tx2 ! i) tx2 (vErrors st),
            signCalls = signCalls st @ [i]\<rparr>)"

lemma sign_cert_input_length:
  "length (vin (mergedTx (sign_cert_input E view keystore st i))) = length (vin (mergedTx st))"
  by (simp add: sign_cert_input_def Let_def)

function sign_cert_loop ::
  "('ks, 'm CMutableTransactionBase_scheme, 'se) script_engine \<Rightarrow> CCoinsViewCache \<Rightarrow> 'ks \<Rightarrow>
   'm CMutableTransactionBase_scheme sign_state \<Rightarrow> nat \<Rightarrow>
   'm CMutableTransactionBase_scheme sign_state" where
  "sign_cert_loop E view keystore st i =
     (if i < length (vin (mergedTx st)) then
        sign_cert_loop E view keystore (sign_cert_input E view keystore st i) (Suc i)
      else st)"
  by pat_completeness auto
termination
  by (relation "measure (\<lambda>(E, view, keystore, st, i). length (vin (mergedTx st)) - i)")
     (auto simp: sign_cert_input_length)

text \<open>\<^verbatim>\<open>signrawcertificate\<close>, from the decoded certificate on.\<close>

definition signrawcertificate ::
  "('ks, 'm CMutableTransactionBase_scheme, 'se) script_engine \<Rightarrow> CCoinsViewCache \<Rightarrow> 'ks \<Rightarrow>
   'm CMutableTransactionBase_scheme \<Rightarrow> 'm CMutableTransactionBase_scheme sign_result" where
  "signrawcertificate E view keystore certVariants =
     sign_result_of
       (sign_cert_loop E view keystore \<lparr>mergedTx = certVariants, vErrors = [], signCalls = []\<rparr> 0)"

text \<open>The error record of an input whose referenced output is not available.\<close>

definition not_found_error :: "CTxIn \<Rightarrow> TxInError" where
  "not_found_error txin =
     \<lparr>err_txid = outpoint_hash (prevout txin), err_vout = outpoint_n (prevout txin),
      err_scriptSig = scriptSig txin, err_sequence = nSequence txin,
      err_error = ''Input not found or already spent''\<rparr>"


subsection \<open>Example data\<close>

text \<open>
  A signer without keys, a combiner that keeps a non-empty accumulator, a verifier that
  accepts exactly the script equal to the locking script, and a coins view holding one
  unspent output.
\<close>

definition ex_engine :: "(unit, 'tx, string) script_engine" where
  "ex_engine =
     \<lparr>SignSignature = (\<lambda>ks pk tx i h. (False, [])),
      CombineSignatures = (\<lambda>pk tx i a b. if a = [] then b else a),
      VerifyScript = (\<lambda>sig pk tx i. (sig = pk, ''Script evaluated without error but finished with a false/empty top stack element'')),
      ScriptErrorString = (\<lambda>e. e)\<rparr>"

text \<open>The same engine with a signer that holds the key: it returns the satisfying script.\<close>

definition ex_keyed_engine :: "(unit, 'tx, string) script_engine" where
  "ex_keyed_engine = ex_engine\<lparr>SignSignature := (\<lambda>ks pk tx i h. (True, pk))\<rparr>"

definition ex_view :: CCoinsViewCache where
  "ex_view = (\<lambda>h. if h = 7 then Some \<lparr>coins_vout = [Some \<lparr>nValue = 5, scriptPubKey = [0x51]\<rparr>]\<rparr> else None)"

definition ex_txin :: "uint256 \<Rightarrow> CScript \<Rightarrow> CTxIn" where
  "ex_txin h s = \<lparr>prevout = \<lparr>outpoint_hash = h, outpoint_n = 0\<rparr>, scriptSig = s, nSequence = 0xffffffff\<rparr>"

definition ex_tx :: "CTxIn list \<Rightarrow> CMutableTransaction" where
  "ex_tx ins = \<lparr>nVersion = 1, vin = ins, vout = [], nLockTime = 0\<rparr>"

definition ex_cert :: "CTxIn list \<Rightarrow> CMutableScCertificate" where
  "ex_cert ins = \<lparr>nVersion = 0xfffffffb, vin = ins, vout = [], scId = 1, epochNumber = 0, quality = 3,
     endEpochBlockHash = 2, scProof = []\<rparr>"


section \<open>Backward-transfer outputs in \<^verbatim>\<open>CertToJSON\<close>\<close>

text \<open>
  Modelled from the spec: the value of the opcode \<^verbatim>\<open>OP_HASH160\<close> (script/script.h)
  is not part of the source at hand; it is the recognised marker of section 4.1 of the
  specification, the protocol's byte \<open>0xa9\<close>.
\<close>

definition OP_HASH160 :: "8 word" where "OP_HASH160 = 0xa9"

text \<open>
  \<^verbatim>\<open>std::find(first, last, value)\<close> on a vector: the index of the first element equal
  to \<open>value\<close>, \<open>None\<close> for \<^verbatim>\<open>last\<close>.
\<close>

fun std_find :: "'a \<Rightarrow> 'a list \<Rightarrow> nat option" where
  "std_find v [] = None"
| "std_find v (x # xs) = (if x = v then Some 0 else map_option Suc (std_find v xs))"

text \<open>
  Modelled from the spec: \<^verbatim>\<open>HexStr\<close> (utilstrencodings.h) is not part of the source at
  hand; section 6 of the specification writes byte strings as \<open>hexBytes\<close>: two lower-case
  hexadecimal digits per byte, in the order of the bytes.
\<close>

definition hexmap :: string where "hexmap = ''0123456789abcdef''"

definition HexStr :: "8 word list \<Rightarrow> string" where
  "HexStr bs = concat (map (\<lambda>b. [hexmap ! (unat b div 16), hexmap ! (unat b mod 16)]) bs)"

text \<open>
  The string \<^verbatim>\<open>pkhStr\<close> that \<^verbatim>\<open>CertToJSON\<close> computes for a backward-transfer
  output:
  \<^verbatim>\<open>auto it = std::find(script.begin(), script.end(), OP_HASH160);
  if (it != script.end()) {
      it += 2;
      std::vector<unsigned char> pkh(it, it + sizeof(uint160));
      pkhStr = HexStr(pkh.rbegin(), pkh.rend());
  } else pkhStr = "<<Decode error>>";\<close>
  Neither \<^verbatim>\<open>it += 2\<close> nor \<^verbatim>\<open>it + sizeof(uint160)\<close> (20 bytes) is compared with
  \<^verbatim>\<open>end()\<close>.
\<close>

definition bwt_pubkeyhash :: "CScript \<Rightarrow> error + string" where
  "bwt_pubkeyhash script =
     (case std_find OP_HASH160 script of
        Some k \<Rightarrow>
          if k + 2 + 20 \<le> length script
          then Inr (HexStr (rev (take 20 (drop (k + 2) script))))
          else Inl OutOfRange
      | None \<Rightarrow> Inr ''<<Decode error>>'')"

text \<open>
  The two pairs \<open>backward transfer\<close> and \<open>pubkeyhash\<close> that \<^verbatim>\<open>CertToJSON\<close> adds to
  the JSON object of output \<open>i\<close>, given \<^verbatim>\<open>cert.IsBackwardTransfer(i)\<close>.
\<close>

definition CertToJSON_backward_transfer :: "bool \<Rightarrow> CTxOut \<Rightarrow> error + (bool \<times> string) option" where
  "CertToJSON_backward_transfer isBackwardTransfer txout =
     (if isBackwardTransfer then
        (case bwt_pubkeyhash (scriptPubKey txout) of
           Inl e \<Rightarrow> Inl e
         | Inr pkhStr \<Rightarrow> Inr (Some (True, pkhStr)))
      else Inr None)"

section \<open>\<^verbatim>\<open>gettxoutproof\<close> and \<^verbatim>\<open>verifytxoutproof\<close>\<close>

text \<open>
  A block as \<^verbatim>\<open>ReadBlockFromDisk\<close> delivers it. The handlers use a transaction of
  the block through \<^verbatim>\<open>tx.GetHash()\<close> only, so \<open>vtx\<close> lists the transactions by their
  ids, in block order.
\<close>

record CBlockHeader =
  hashPrevBlock :: uint256
  hashMerkleRoot :: uint256
  nTime :: "32 word"

record CBlock =
  header :: CBlockHeader
  vtx :: "uint256 list"

text \<open>
  Modelled from the spec: \<^verbatim>\<open>CPartialMerkleTree\<close> and \<^verbatim>\<open>CMerkleBlock\<close>
  (merkleblock.h) are not part of the source at hand. Section 3 of the specification
  gives the proof its fields: the block header with the declared root, the leaf count,
  the bitmask and the retained hashes.
\<close>

record CPartialMerkleTree =
  nTransactions :: nat
  vBits :: "bool list"
  vHash :: "uint256 list"

record CMerkleBlock =
  mb_header :: CBlockHeader
  txn :: CPartialMerkleTree

text \<open>
  Modelled from the spec: the chain state behind \<^verbatim>\<open>mapBlockIndex\<close>,
  \<^verbatim>\<open>chainActive\<close>, \<^verbatim>\<open>pcoinsTip\<close>, \<^verbatim>\<open>GetTransaction\<close> and
  \<^verbatim>\<open>ReadBlockFromDisk\<close> (main.h) is not part of the source at hand; it is the
  chain-state collaborator of section 4.2 of the specification, read-only during a call.
  \<open>chainActive_at h\<close> is \<^verbatim>\<open>chainActive[h]\<close>, \<open>GetCoins_nHeight txid\<close> the height
  stored with the unspent outputs of \<open>txid\<close> when \<^verbatim>\<open>pcoinsTip->GetCoins\<close> finds them,
  \<open>GetTransaction_hashBlock txid\<close> the block hash that \<^verbatim>\<open>GetTransaction\<close> reports
  when it finds \<open>txid\<close>, and \<open>BlockHeader_GetHash\<close> is \<^verbatim>\<open>CBlockHeader::GetHash\<close>.
  \<open>IsHex\<close>, \<open>uint256S\<close> and \<open>GetHex\<close> are the hexadecimal helpers of
  utilstrencodings.h and uint256.h.
\<close>

record 'bi chain_state =
  mapBlockIndex :: "uint256 \<Rightarrow> 'bi option"
  chainActive_Contains :: "'bi \<Rightarrow> bool"
  chainActive_Height :: int
  chainActive_at :: "int \<Rightarrow> 'bi option"
  GetCoins_nHeight :: "uint256 \<Rightarrow> int option"
  GetTransaction_hashBlock :: "uint256 \<Rightarrow> uint256 option"
  ReadBlockFromDisk :: "'bi \<Rightarrow> CBlock option"
  BlockHeader_GetHash :: "CBlockHeader \<Rightarrow> uint256"
  IsHex :: "string \<Rightarrow> bool"
  uint256S :: "string \<Rightarrow> uint256"
  GetHex :: "uint256 \<Rightarrow> string"

text \<open>
  The loop of \<^verbatim>\<open>gettxoutproof\<close> over the array of txids: it fills \<open>setTxids\<close> and keeps
  the last id in \<open>oneTxid\<close>.
\<close>

fun txid_loop ::
  "'bi chain_state \<Rightarrow> string list \<Rightarrow> uint256 set \<Rightarrow> uint256 \<Rightarrow> error + (uint256 set \<times> uint256)" where
  "txid_loop C [] setTxids oneTxid = Inr (setTxids, oneTxid)"
| "txid_loop C (txid # txids) setTxids oneTxid =
     (if length txid \<noteq> 64 \<or> \<not> IsHex C txid then
        Inl (JSONRPCError RPC_INVALID_PARAMETER (''Invalid txid '' @ txid))
      else
        let hash = uint256S C txid in
        if hash \<in> setTxids then
          Inl (JSONRPCError RPC_INVALID_PARAMETER (''Invalid parameter, duplicated txid: '' @ txid))
        else txid_loop C txids (insert hash setTxids) hash)"

text \<open>
  The choice of \<^verbatim>\<open>pblockindex\<close>: from the block hash when the second parameter is
  given, else from the height of the unspent outputs of \<open>oneTxid\<close>, else from the
  transaction index.
\<close>

definition find_pblockindex :: "'bi chain_state \<Rightarrow> uint256 \<Rightarrow> string option \<Rightarrow> error + 'bi" where
  "find_pblockindex C oneTxid blockhash =
     (case blockhash of
        Some str \<Rightarrow>
          (case mapBlockIndex C (uint256S C str) of
             None \<Rightarrow> Inl (JSONRPCError RPC_INVALID_ADDRESS_OR_KEY ''Block not found'')
           | Some pblockindex \<Rightarrow> Inr pblockindex)
      | None \<Rightarrow>
          (case (case GetCoins_nHeight C oneTxid of
                   Some nHeight \<Rightarrow>
                     if nHeight > 0 \<and> nHeight \<le> chainActive_Height C
                     then chainActive_at C nHeight else None
                 | None \<Rightarrow> None) of
             Some pblockindex \<Rightarrow> Inr pblockindex
           | None \<Rightarrow>
               (case GetTransaction_hashBlock C oneTxid of
                  None \<Rightarrow> Inl (JSONRPCError RPC_INVALID_ADDRESS_OR_KEY ''Transaction not yet in block'')
                | Some hashBlock \<Rightarrow>
                    if hashBlock = 0 then
                      Inl (JSONRPCError RPC_INVALID_ADDRESS_OR_KEY ''Transaction not yet in block'')
                    else
                      (case mapBlockIndex C hashBlock of
                         None \<Rightarrow> Inl (JSONRPCError RPC_INTERNAL_ERROR ''Transaction index corrupt'')
                       | Some pblockindex \<Rightarrow> Inr pblockindex))))"

text \<open>
  \<^verbatim>\<open>gettxoutproof\<close>. The constructor \<^verbatim>\<open>CMerkleBlock(block, setTxids)\<close> is the
  parameter \<open>mkMerkleBlock\<close>; the result is the proof that the source then serialises and
  hex-encodes.
\<close>

definition gettxoutproof ::
  "(CBlock \<Rightarrow> uint256 set \<Rightarrow> CMerkleBlock) \<Rightarrow> 'bi chain_state \<Rightarrow> string list \<Rightarrow> string option \<Rightarrow>
   error + CMerkleBlock" where
  "gettxoutproof mkMerkleBlock C txids blockhash =
     (case txid_loop C txids {} 0 of
        Inl e \<Rightarrow> Inl e
      | Inr (setTxids, oneTxid) \<Rightarrow>
          (case find_pblockindex C oneTxid blockhash of
             Inl e \<Rightarrow> Inl e
           | Inr pblockindex \<Rightarrow>
               (case ReadBlockFromDisk C pblockindex of
                  None \<Rightarrow> Inl (JSONRPCError RPC_INTERNAL_ERROR ''Can't read block from disk'')
                | Some block \<Rightarrow>
                    let ntxFound = length (filter (\<lambda>tx. tx \<in> setTxids) (vtx block)) in
                    if ntxFound \<noteq> card setTxids then
                      Inl (JSONRPCError RPC_INVALID_ADDRESS_OR_KEY
                             ''(Not all) transactions not found in specified block'')
                    else Inr (mkMerkleBlock block setTxids))))"

text \<open>
  \<^verbatim>\<open>verifytxoutproof\<close>, from the deserialised \<^verbatim>\<open>CMerkleBlock\<close> on. The call
  \<^verbatim>\<open>merkleBlock.txn.ExtractMatches(vMatch)\<close> is the parameter \<open>extractMatches\<close>: it
  returns the recomputed root with the matched ids, or throws.
\<close>

definition verifytxoutproof ::
  "(CPartialMerkleTree \<Rightarrow> error + uint256 \<times> uint256 list) \<Rightarrow> 'bi chain_state \<Rightarrow> CMerkleBlock \<Rightarrow>
   error + string list" where
  "verifytxoutproof extractMatches C merkleBlock =
     (case extractMatches (txn merkleBlock) of
        Inl e \<Rightarrow> Inl e
      | Inr (root, vMatch) \<Rightarrow>
          if root \<noteq> hashMerkleRoot (mb_header merkleBlock) then Inr []
          else
            (case mapBlockIndex C (BlockHeader_GetHash C (mb_header merkleBlock)) of
               None \<Rightarrow> Inl (JSONRPCError RPC_INVALID_ADDRESS_OR_KEY ''Block not found in chain'')
             | Some pindex \<Rightarrow>
                 if \<not> chainActive_Contains C pindex then
                   Inl (JSONRPCError RPC_INVALID_ADDRESS_OR_KEY ''Block not found in chain'')
                 else Inr (map (GetHex C) vMatch)))"


section \<open>The partial Merkle tree\<close>

text \<open>
  Modelled from the spec: \<^verbatim>\<open>CPartialMerkleTree\<close> and the constructor of
  \<^verbatim>\<open>CMerkleBlock\<close> (merkleblock.h, merkleblock.cpp) are not part of the source at
  hand. The definitions of this section follow sections 4.5 and 4.6 of the
  specification: a binary hash tree over the ordered ids of the block, pruned where no
  leaf below a node is matched, written out depth first and left to right. The hash of
  two nodes is the parameter \<open>H\<close>. The specification does not say how a level with an odd
  number of nodes is closed; the last node is paired with itself. The width of the tree
  at a height is the number of nodes there.
\<close>

definition CalcTreeWidth :: "nat \<Rightarrow> nat \<Rightarrow> nat" where
  "CalcTreeWidth n height = (n + 2 ^ height - 1) div 2 ^ height"

lemma CalcTreeWidth_less_iff: "pos < CalcTreeWidth n h \<longleftrightarrow> pos * 2 ^ h < n"
proof -
  define x :: nat where "x = 2 ^ h"
  have x: "0 < x" by (simp add: x_def)
  have "pos < CalcTreeWidth n h \<longleftrightarrow> Suc pos \<le> (n + x - 1) div x"
    by (simp add: CalcTreeWidth_def Suc_le_eq x_def)
  also have "\<dots> \<longleftrightarrow> Suc pos * x \<le> n + x - 1"
    using x by (simp add: less_eq_div_iff_mult_less_eq)
  also have "\<dots> \<longleftrightarrow> pos * x + x \<le> n + x - 1"
    by (simp add: add.commute)
  also have "\<dots> \<longleftrightarrow> pos * x < n"
    using x by linarith
  finally show ?thesis by (simp add: x_def)
qed

text \<open>
  Modelled from the spec: the height of the tree over \<open>n\<close> leaves ("a tree of the
  declared leaf count"), the first height at which the tree is one node wide.
\<close>

function tree_height_from :: "nat \<Rightarrow> nat \<Rightarrow> nat" where
  "tree_height_from n nHeight =
     (if CalcTreeWidth n nHeight > 1 then tree_height_from n (Suc nHeight) else nHeight)"
  by pat_completeness auto
termination
proof (relation "measure (\<lambda>(n, nHeight). n - 2 ^ nHeight)")
  show "wf (measure (\<lambda>(n, nHeight). n - 2 ^ nHeight))" by simp
next
  fix n nHeight :: nat
  assume "1 < CalcTreeWidth n nHeight"
  then have "1 * 2 ^ nHeight < n" by (simp only: CalcTreeWidth_less_iff)
  moreover have "(0::nat) < 2 ^ nHeight" by simp
  ultimately have "n - 2 * 2 ^ nHeight < n - 2 ^ nHeight" by linarith
  then show "((n, Suc nHeight), (n, nHeight)) \<in> measure (\<lambda>(n, nHeight). n - 2 ^ nHeight)"
    by simp
qed

definition tree_height :: "nat \<Rightarrow> nat" where
  "tree_height n = tree_height_from n 0"

text \<open>
  Modelled from the spec: the hash of the node at \<open>(height, pos)\<close>; a leaf is the id at
  its position, an inner node the hash of its two children ("combine them").
\<close>

fun CalcHash :: "(uint256 \<Rightarrow> uint256 \<Rightarrow> uint256) \<Rightarrow> uint256 list \<Rightarrow> nat \<Rightarrow> nat \<Rightarrow> uint256" where
  "CalcHash H vTxid 0 pos = vTxid ! pos"
| "CalcHash H vTxid (Suc h) pos =
     (let left = CalcHash H vTxid h (pos * 2);
          right = (if pos * 2 + 1 < CalcTreeWidth (length vTxid) h
                   then CalcHash H vTxid h (pos * 2 + 1) else left)
      in H left right)"

text \<open>
  Modelled from the spec: section 4.5, "an internal node's hash is included explicitly
  only if none of its descendant leaves are matched; matched branches are followed all
  the way to their leaves, which are always included as explicit leaf hashes"; the result
  is the bitmask and the retained hashes, both in the order of the depth-first,
  left-to-right traversal.
\<close>

fun TraverseAndBuild ::
  "(uint256 \<Rightarrow> uint256 \<Rightarrow> uint256) \<Rightarrow> uint256 list \<Rightarrow> bool list \<Rightarrow> nat \<Rightarrow> nat \<Rightarrow>
   bool list \<times> uint256 list" where
  "TraverseAndBuild H vTxid vMatch 0 pos = ([vMatch ! pos], [vTxid ! pos])"
| "TraverseAndBuild H vTxid vMatch (Suc h) pos =
     (let fParentOfMatch =
            list_ex (\<lambda>p. vMatch ! p)
              [pos * 2 ^ Suc h ..< min ((pos + 1) * 2 ^ Suc h) (length vTxid)]
      in if \<not> fParentOfMatch then ([False], [CalcHash H vTxid (Suc h) pos])
         else
           let (bitsL, hashesL) = TraverseAndBuild H vTxid vMatch h (pos * 2);
               (bitsR, hashesR) =
                 (if pos * 2 + 1 < CalcTreeWidth (length vTxid) h
                  then TraverseAndBuild H vTxid vMatch h (pos * 2 + 1) else ([], []))
           in (True # bitsL @ bitsR, hashesL @ hashesR))"

text \<open>
  Modelled from the spec: section 4.6, the replay of the bitmask over a tree of the
  declared leaf count. It consumes bits and hashes from the front and returns the hash of
  the node, the ids of the matched leaves below it in leaf order, and what is left of
  the bits and hashes; \<open>None\<close> when bits or hashes run out.
\<close>

fun TraverseAndExtract ::
  "(uint256 \<Rightarrow> uint256 \<Rightarrow> uint256) \<Rightarrow> nat \<Rightarrow> nat \<Rightarrow> nat \<Rightarrow> bool list \<Rightarrow> uint256 list \<Rightarrow>
   (uint256 \<times> uint256 list \<times> bool list \<times> uint256 list) option" where
  "TraverseAndExtract H n h pos [] hashes = None"
| "TraverseAndExtract H n 0 pos (fParentOfMatch # bits) hashes =
     (case hashes of
        [] \<Rightarrow> None
      | hash # hashes' \<Rightarrow> Some (hash, if fParentOfMatch then [hash] else [], bits, hashes'))"
| "TraverseAndExtract H n (Suc h) pos (fParentOfMatch # bits) hashes =
     (if \<not> fParentOfMatch then
        (case hashes of [] \<Rightarrow> None | hash # hashes' \<Rightarrow> Some (hash, [], bits, hashes'))
      else
        (case TraverseAndExtract H n h (pos * 2) bits hashes of
           None \<Rightarrow> None
         | Some (left, matchL, bits1, hashes1) \<Rightarrow>
             if pos * 2 + 1 < CalcTreeWidth n h then
               (case TraverseAndExtract H n h (pos * 2 + 1) bits1 hashes1 of
                  None \<Rightarrow> None
                | Some (right, matchR, bits2, hashes2) \<Rightarrow>
                    Some (H left right, matchL @ matchR, bits2, hashes2))
             else Some (H left left, matchL, bits1, hashes1)))"

text \<open>
  Modelled from the spec: the proof for a list of ids and their matched flags (leaf
  count, bitmask, retained hashes), and the proof object of a block and a set of target
  ids (section 4.5). A list without ids has no tree.
\<close>

definition CPartialMerkleTree_build ::
  "(uint256 \<Rightarrow> uint256 \<Rightarrow> uint256) \<Rightarrow> uint256 list \<Rightarrow> bool list \<Rightarrow> CPartialMerkleTree" where
  "CPartialMerkleTree_build H vTxid vMatch =
     (if vTxid = [] then \<lparr>nTransactions = 0, vBits = [], vHash = []\<rparr>
      else
        case TraverseAndBuild H vTxid vMatch (tree_height (length vTxid)) 0 of
          (bits, hashes) \<Rightarrow> \<lparr>nTransactions = length vTxid, vBits = bits, vHash = hashes\<rparr>)"

definition CMerkleBlock_build ::
  "(uint256 \<Rightarrow> uint256 \<Rightarrow> uint256) \<Rightarrow> CBlock \<Rightarrow> uint256 set \<Rightarrow> CMerkleBlock" where
  "CMerkleBlock_build H block txids =
     \<lparr>mb_header = header block,
      txn = CPartialMerkleTree_build H (vtx block) (map (\<lambda>tx. tx \<in> txids) (vtx block))\<rparr>"

text \<open>
  Modelled from the spec: section 4.6, the recomputation of the root with the recovered
  ids. A proof is rejected as malformed when its retained hashes are not exactly those
  the replay of the bitmask uses (section 7, \<open>MalformedProof\<close>).
\<close>

definition ExtractMatches ::
  "(uint256 \<Rightarrow> uint256 \<Rightarrow> uint256) \<Rightarrow> CPartialMerkleTree \<Rightarrow> error + uint256 \<times> uint256 list" where
  "ExtractMatches H t =
     (if nTransactions t = 0 then Inl MalformedProof
      else
        case TraverseAndExtract H (nTransactions t) (tree_height (nTransactions t)) 0
               (vBits t) (vHash t) of
          None \<Rightarrow> Inl MalformedProof
        | Some (root, vMatch, bits, hashes) \<Rightarrow>
            if hashes \<noteq> [] then Inl MalformedProof else Inr (root, vMatch))"

text \<open>
  Modelled from the spec: the Merkle root that a block declares in its header for its
  ordered ids, the hash of the top node of the same tree.
\<close>

definition BlockMerkleRoot :: "(uint256 \<Rightarrow> uint256 \<Rightarrow> uint256) \<Rightarrow> uint256 list \<Rightarrow> uint256" where
  "BlockMerkleRoot H vTxid = CalcHash H vTxid (tree_height (length vTxid)) 0"

subsection \<open>Example chain\<close>

text \<open>
  A chain of one block with the four ids \<open>a, b, c, d\<close> (the character codes 97 to 100),
  whose header declares the root of the tree over them; a toy hash of two nodes; a txid
  string is 64 times one character, and is parsed to the code of its first character.
\<close>

definition ex_H :: "uint256 \<Rightarrow> uint256 \<Rightarrow> uint256" where
  "ex_H a b = 3 * a + 5 * b + 1"

definition ex_txid :: "char \<Rightarrow> string" where
  "ex_txid c = replicate 64 c"

definition ex_block :: CBlock where
  "ex_block =
     \<lparr>header = \<lparr>hashPrevBlock = 111, hashMerkleRoot = 6337, nTime = 0\<rparr>,
      vtx = [97, 98, 99, 100]\<rparr>"

definition ex_chain :: "nat chain_state" where
  "ex_chain =
     \<lparr>mapBlockIndex = (\<lambda>h. if h = 112 then Some 1 else None),
      chainActive_Contains = (\<lambda>pindex. pindex = 1),
      chainActive_Height = 1,
      chainActive_at = (\<lambda>h. if h = 1 then Some 1 else None),
      GetCoins_nHeight = (\<lambda>txid. None),
      GetTransaction_hashBlock = (\<lambda>txid. None),
      ReadBlockFromDisk = (\<lambda>pindex. if pindex = 1 then Some ex_block else None),
      BlockHeader_GetHash = (\<lambda>h. hashPrevBlock h + 1),
      IsHex = (\<lambda>s. list_all (\<lambda>c. c \<in> set hexmap) s),
      uint256S = (\<lambda>s. case s of [] \<Rightarrow> 0 | c # cs \<Rightarrow> of_nat (of_char c)),
      GetHex = (\<lambda>h. ex_txid (if h = 97 then CHR ''a'' else if h = 98 then CHR ''b''
                             else if h = 99 then CHR ''c'' else if h = 100 then CHR ''d''
                             else CHR ''0''))\<rparr>"

subsection \<open>Auxiliary notions\<close>

text \<open>
  The leaf positions below the node at \<open>(h, pos)\<close> of a tree over \<open>n\<close> leaves, and the ids
  at the matched ones among them, in leaf order. They state what the traversals compute.
\<close>

definition leaf_range :: "nat \<Rightarrow> nat \<Rightarrow> nat \<Rightarrow> nat list" where
  "leaf_range n h pos = [pos * 2 ^ h ..< min ((pos + 1) * 2 ^ h) n]"

definition matched_below :: "uint256 list \<Rightarrow> bool list \<Rightarrow> nat \<Rightarrow> nat \<Rightarrow> uint256 list" where
  "matched_below vTxid vMatch h pos =
     map (\<lambda>p. vTxid ! p) (filter (\<lambda>p. vMatch ! p) (leaf_range (length vTxid) h pos))"


section \<open>Properties of the signing loops\<close>

declare sign_tx_loop.simps [simp del] sign_cert_loop.simps [simp del]


lemma set_scriptSig_same:
  "i < length (vin tx) \<Longrightarrow> set_scriptSig tx i (scriptSig (vin tx ! i)) = tx"
  by (simp add: set_scriptSig_def)

lemma set_scriptSig_twice [simp]:
  "set_scriptSig (set_scriptSig tx i a) i b = set_scriptSig tx i b"
  by (cases "i < length (vin tx)") (simp_all add: set_scriptSig_def list_update_beyond)

lemma vin_set_scriptSig_other [simp]:
  "k \<noteq> i \<Longrightarrow> vin (set_scriptSig tx i s) ! k = vin tx ! k"
  by (simp add: set_scriptSig_def)

lemma prevout_set_scriptSig [simp]:
  "prevout (vin (set_scriptSig tx i s) ! k) = prevout (vin tx ! k)"
  by (cases "k = i"; cases "i < length (vin tx)") (simp_all add: set_scriptSig_def list_update_beyond)

lemma scriptSig_set_scriptSig [simp]:
  "i < length (vin tx) \<Longrightarrow> scriptSig (vin (set_scriptSig tx i s) ! i) = s"
  by (simp add: set_scriptSig_def)

lemma merge_variants_shape:
  "merge_variants E pk i txvs tx = Inr tx' \<Longrightarrow> i < length (vin tx) \<Longrightarrow>
   \<exists>s. tx' = set_scriptSig tx i s"
proof (induction txvs arbitrary: tx)
  case Nil
  then show ?case by (auto intro: exI[of _ "scriptSig (vin tx ! i)"] simp: set_scriptSig_same)
next
  case (Cons txv txvs)
  then show ?case by (fastforce split: if_splits)
qed

lemma merge_variants_Inl_iff:
  "(\<exists>e. merge_variants E pk i txvs tx = Inl e) \<longleftrightarrow> (\<exists>txv \<in> set txvs. length (vin txv) \<le> i)"
  by (induction txvs arbitrary: tx) (auto simp: not_less)

lemma merge_variants_Inl_OutOfRange:
  "merge_variants E pk i txvs tx = Inl e \<Longrightarrow> e = OutOfRange"
  by (induction txvs arbitrary: tx) (auto split: if_splits)

lemma input_unavailable_prevout:
  "prevout a = prevout b \<Longrightarrow> input_unavailable view a = input_unavailable view b"
  by (simp only: input_unavailable_def)

lemma sign_tx_input_unavailable:
  "input_unavailable view (vin (mergedTx st) ! i) \<Longrightarrow>
   sign_tx_input E view ks h txvs st i =
     Inr (st\<lparr>vErrors := vErrors st @ [not_found_error (vin (mergedTx st) ! i)]\<rparr>)"
  by (simp add: sign_tx_input_def Let_def TxInErrorToJSON_def not_found_error_def)

lemma sign_cert_input_unavailable:
  "input_unavailable view (vin (mergedTx st) ! i) \<Longrightarrow>
   sign_cert_input E view ks st i =
     st\<lparr>vErrors := vErrors st @ [not_found_error (vin (mergedTx st) ! i)]\<rparr>"
  by (simp add: sign_cert_input_def Let_def TxInErrorToJSON_def not_found_error_def)

lemma verify_input_prefix: "\<exists>es. verify_input E pk i txin tx errs = errs @ es"
  by (auto simp: verify_input_def TxInErrorToJSON_def split: prod.splits)

lemma sign_tx_input_available:
  assumes "\<not> input_unavailable view (vin (mergedTx st) ! i)" "i < length (vin (mergedTx st))"
    and "sign_tx_input E view ks h txvs st i = Inr st'"
  shows "(\<exists>s. mergedTx st' = set_scriptSig (mergedTx st) i s) \<and>
         (\<exists>es. vErrors st' = vErrors st @ es) \<and>
         signCalls st' = signCalls st @
            (if \<not> fHashSingle h \<or> i < length (vout (mergedTx st)) then [i] else [])"
  using assms
  by (auto simp: sign_tx_input_def Let_def verify_input_prefix split: sum.splits if_splits
           dest!: merge_variants_shape)


lemma sign_tx_input_step:
  assumes "i < length (vin (mergedTx st))"
    and "sign_tx_input E view ks h txvs st i = Inr st'"
  shows "length (vin (mergedTx st')) = length (vin (mergedTx st))"
    and "vout (mergedTx st') = vout (mergedTx st)"
    and "k \<noteq> i \<Longrightarrow> vin (mergedTx st') ! k = vin (mergedTx st) ! k"
    and "prevout (vin (mergedTx st') ! k) = prevout (vin (mergedTx st) ! k)"
    and "\<exists>es. vErrors st' = vErrors st @ es"
    and "input_unavailable view (vin (mergedTx st) ! i) \<Longrightarrow>
           mergedTx st' = mergedTx st \<and>
           vErrors st' = vErrors st @ [not_found_error (vin (mergedTx st) ! i)] \<and>
           signCalls st' = signCalls st"
    and "\<not> input_unavailable view (vin (mergedTx st) ! i) \<Longrightarrow>
           signCalls st' = signCalls st @
             (if \<not> fHashSingle h \<or> i < length (vout (mergedTx st)) then [i] else [])"
proof -
  show u: "input_unavailable view (vin (mergedTx st) ! i) \<Longrightarrow>
           mergedTx st' = mergedTx st \<and>
           vErrors st' = vErrors st @ [not_found_error (vin (mergedTx st) ! i)] \<and>
           signCalls st' = signCalls st"
    using assms(2) by (auto simp: sign_tx_input_unavailable)
  have a: "\<not> input_unavailable view (vin (mergedTx st) ! i) \<Longrightarrow>
         (\<exists>s. mergedTx st' = set_scriptSig (mergedTx st) i s) \<and>
         (\<exists>es. vErrors st' = vErrors st @ es) \<and>
         signCalls st' = signCalls st @
            (if \<not> fHashSingle h \<or> i < length (vout (mergedTx st)) then [i] else [])"
    using sign_tx_input_available[OF _ assms] by blast
  show "length (vin (mergedTx st')) = length (vin (mergedTx st))"
    using assms(2) by (rule sign_tx_input_length)
  show "vout (mergedTx st') = vout (mergedTx st)"
    using u a by (cases "input_unavailable view (vin (mergedTx st) ! i)") auto
  show "k \<noteq> i \<Longrightarrow> vin (mergedTx st') ! k = vin (mergedTx st) ! k"
    using u a by (cases "input_unavailable view (vin (mergedTx st) ! i)") auto
  show "prevout (vin (mergedTx st') ! k) = prevout (vin (mergedTx st) ! k)"
    using u a by (cases "input_unavailable view (vin (mergedTx st) ! i)") auto
  show "\<exists>es. vErrors st' = vErrors st @ es"
    using u a by (cases "input_unavailable view (vin (mergedTx st) ! i)") auto
  show "\<not> input_unavailable view (vin (mergedTx st) ! i) \<Longrightarrow>
           signCalls st' = signCalls st @
             (if \<not> fHashSingle h \<or> i < length (vout (mergedTx st)) then [i] else [])"
    using a by blast
qed

lemma sign_tx_loop_done:
  "\<not> i < length (vin (mergedTx st)) \<Longrightarrow> sign_tx_loop E view ks h txvs st i = Inr st"
  by (simp add: sign_tx_loop.simps)

lemma sign_tx_loop_step:
  "i < length (vin (mergedTx st)) \<Longrightarrow> sign_tx_input E view ks h txvs st i = Inr st' \<Longrightarrow>
   sign_tx_loop E view ks h txvs st i = sign_tx_loop E view ks h txvs st' (Suc i)"
  by (subst sign_tx_loop.simps) simp

lemma sign_tx_loop_abort:
  "i < length (vin (mergedTx st)) \<Longrightarrow> sign_tx_input E view ks h txvs st i = Inl e \<Longrightarrow>
   sign_tx_loop E view ks h txvs st i = Inl e"
  by (subst sign_tx_loop.simps) simp

lemma sign_tx_loop_inv:
  "sign_tx_loop E view ks h txvs st i = Inr fin \<Longrightarrow>
     length (vin (mergedTx fin)) = length (vin (mergedTx st)) \<and>
     vout (mergedTx fin) = vout (mergedTx st) \<and>
     (\<exists>es. vErrors fin = vErrors st @ es) \<and>
     (\<forall>k. prevout (vin (mergedTx fin) ! k) = prevout (vin (mergedTx st) ! k)) \<and>
     (\<forall>k. k < i \<or> input_unavailable view (vin (mergedTx st) ! k) \<longrightarrow>
          vin (mergedTx fin) ! k = vin (mergedTx st) ! k)"
proof (induction E view ks h txvs st i rule: sign_tx_loop.induct)
  case (1 E view ks h txvs st i)
  show ?case
  proof (cases "i < length (vin (mergedTx st))")
    case False
    with "1.prems" show ?thesis by (simp add: sign_tx_loop_done)
  next
    case True
    show ?thesis
    proof (cases "sign_tx_input E view ks h txvs st i")
      case (Inl e)
      with True "1.prems" show ?thesis by (simp add: sign_tx_loop_abort)
    next
      case (Inr st')
      with True "1.prems" have rest: "sign_tx_loop E view ks h txvs st' (Suc i) = Inr fin"
        by (simp add: sign_tx_loop_step)
      note IH = "1.IH"[OF True Inr rest]
      note S = sign_tx_input_step[OF True Inr]
      have len: "length (vin (mergedTx fin)) = length (vin (mergedTx st))"
        using IH S(1) by simp
      have vo: "vout (mergedTx fin) = vout (mergedTx st)"
        using IH S(2) by simp
      have er: "\<exists>es. vErrors fin = vErrors st @ es"
        using IH S(5) by auto
      have po: "\<forall>k. prevout (vin (mergedTx fin) ! k) = prevout (vin (mergedTx st) ! k)"
        using IH S(4) by simp
      have un: "vin (mergedTx fin) ! k = vin (mergedTx st) ! k"
        if "k < i \<or> input_unavailable view (vin (mergedTx st) ! k)" for k
      proof (cases "k = i")
        case True
        with that have "input_unavailable view (vin (mergedTx st) ! i)" by simp
        from S(6)[OF this] have "mergedTx st' = mergedTx st" by simp
        moreover have "vin (mergedTx fin) ! i = vin (mergedTx st') ! i" using IH by simp
        ultimately show ?thesis using True by simp
      next
        case False
        then have e: "vin (mergedTx st') ! k = vin (mergedTx st) ! k" by (rule S(3))
        have "k < Suc i \<or> input_unavailable view (vin (mergedTx st') ! k)"
          using that e by auto
        then have "vin (mergedTx fin) ! k = vin (mergedTx st') ! k" using IH by blast
        with e show ?thesis by simp
      qed
      from len vo er po un show ?thesis by blast
    qed
  qed
qed

lemma sign_tx_loop_errors_mem:
  "sign_tx_loop E view ks h txvs st i = Inr fin \<Longrightarrow> i \<le> k \<Longrightarrow> k < length (vin (mergedTx st)) \<Longrightarrow>
   input_unavailable view (vin (mergedTx st) ! k) \<Longrightarrow>
   not_found_error (vin (mergedTx st) ! k) \<in> set (vErrors fin)"
proof (induction E view ks h txvs st i rule: sign_tx_loop.induct)
  case (1 E view ks h txvs st i)
  from "1.prems" have True: "i < length (vin (mergedTx st))" by simp
  show ?case
  proof (cases "sign_tx_input E view ks h txvs st i")
    case (Inl e)
    with True "1.prems" show ?thesis by (simp add: sign_tx_loop_abort)
  next
    case (Inr st')
    with True "1.prems" have rest: "sign_tx_loop E view ks h txvs st' (Suc i) = Inr fin"
      by (simp add: sign_tx_loop_step)
    note S = sign_tx_input_step[OF True Inr]
    show ?thesis
    proof (cases "k = i")
      case True
      with "1.prems" have "vErrors st' = vErrors st @ [not_found_error (vin (mergedTx st) ! k)]"
        using S(6) by simp
      moreover obtain es where "vErrors fin = vErrors st' @ es"
        using sign_tx_loop_inv[OF rest] by blast
      ultimately show ?thesis by simp
    next
      case False
      then have e: "vin (mergedTx st') ! k = vin (mergedTx st) ! k" by (rule S(3))
      have "not_found_error (vin (mergedTx st') ! k) \<in> set (vErrors fin)"
        using "1.IH"[OF \<open>i < length (vin (mergedTx st))\<close> Inr rest] False "1.prems" e S(1)
        by simp
      with e show ?thesis by simp
    qed
  qed
qed

lemma sign_tx_loop_signCalls:
  "sign_tx_loop E view ks h txvs st i = Inr fin \<Longrightarrow>
   signCalls fin = signCalls st @
     filter (\<lambda>k. \<not> input_unavailable view (vin (mergedTx st) ! k) \<and>
                 (\<not> fHashSingle h \<or> k < length (vout (mergedTx st))))
       [i..<length (vin (mergedTx st))]"
proof (induction E view ks h txvs st i rule: sign_tx_loop.induct)
  case (1 E view ks h txvs st i)
  show ?case
  proof (cases "i < length (vin (mergedTx st))")
    case False
    with "1.prems" show ?thesis by (simp add: sign_tx_loop_done)
  next
    case True
    show ?thesis
    proof (cases "sign_tx_input E view ks h txvs st i")
      case (Inl e)
      with True "1.prems" show ?thesis by (simp add: sign_tx_loop_abort)
    next
      case (Inr st')
      with True "1.prems" have rest: "sign_tx_loop E view ks h txvs st' (Suc i) = Inr fin"
        by (simp add: sign_tx_loop_step)
      note IH = "1.IH"[OF True Inr rest]
      note S = sign_tx_input_step[OF True Inr]
      have av: "input_unavailable view (vin (mergedTx st') ! k) =
                input_unavailable view (vin (mergedTx st) ! k)" for k
        by (rule input_unavailable_prevout) (rule S(4))
      have here: "signCalls st' = signCalls st @
          filter (\<lambda>k. \<not> input_unavailable view (vin (mergedTx st) ! k) \<and>
                 (\<not> fHashSingle h \<or> k < length (vout (mergedTx st)))) [i]"
        using S(6) S(7) by (cases "input_unavailable view (vin (mergedTx st) ! i)") auto
      have "[i..<length (vin (mergedTx st))] = [i] @ [Suc i..<length (vin (mergedTx st))]"
        using True by (simp add: upt_conv_Cons)
      then show ?thesis
        using IH here by (simp add: av S(1) S(2) del: upt_Suc)
    qed
  qed
qed

lemma sign_tx_input_Inl:
  "sign_tx_input E view ks h txvs st i = Inl e \<Longrightarrow> e = OutOfRange"
  by (auto simp: sign_tx_input_def Let_def split: if_splits sum.splits
           dest: merge_variants_Inl_OutOfRange)

lemma sign_tx_input_Inl_iff:
  "(\<exists>e. sign_tx_input E view ks h txvs st i = Inl e) \<longleftrightarrow>
   (\<not> input_unavailable view (vin (mergedTx st) ! i) \<and> (\<exists>txv \<in> set txvs. length (vin txv) \<le> i))"
proof (cases "input_unavailable view (vin (mergedTx st) ! i)")
  case True
  then show ?thesis by (simp add: sign_tx_input_unavailable)
next
  case False
  have "(\<exists>e. sign_tx_input E view ks h txvs st i = Inl e) \<longleftrightarrow>
        (\<exists>e. merge_variants E (prevPubKey_of view (vin (mergedTx st) ! i)) i txvs
                (if \<not> fHashSingle h \<or> i < length (vout (set_scriptSig (mergedTx st) i []))
                 then set_scriptSig (set_scriptSig (mergedTx st) i []) i
                        (snd (SignSignature E ks (prevPubKey_of view (vin (mergedTx st) ! i))
                               (set_scriptSig (mergedTx st) i []) i h))
                 else set_scriptSig (mergedTx st) i []) = Inl e)"
    using False by (auto simp: sign_tx_input_def Let_def split: sum.splits)
  then show ?thesis using False by (simp only: merge_variants_Inl_iff) simp
qed

lemma sign_tx_loop_Inl:
  "sign_tx_loop E view ks h txvs st i = Inl e \<Longrightarrow> e = OutOfRange"
proof (induction E view ks h txvs st i rule: sign_tx_loop.induct)
  case (1 E view ks h txvs st i)
  show ?case
  proof (cases "i < length (vin (mergedTx st))")
    case False
    with "1.prems" show ?thesis by (simp add: sign_tx_loop_done)
  next
    case True
    show ?thesis
    proof (cases "sign_tx_input E view ks h txvs st i")
      case (Inl e')
      with True "1.prems" show ?thesis by (auto simp: sign_tx_loop_abort dest: sign_tx_input_Inl)
    next
      case (Inr st')
      with True "1.prems" have "sign_tx_loop E view ks h txvs st' (Suc i) = Inl e"
        by (simp add: sign_tx_loop_step)
      with "1.IH"[OF True Inr] show ?thesis by simp
    qed
  qed
qed

lemma sign_tx_loop_returns_iff:
  "(\<exists>fin. sign_tx_loop E view ks h txvs st i = Inr fin) \<longleftrightarrow>
   (\<forall>k. i \<le> k \<and> k < length (vin (mergedTx st)) \<and>
        \<not> input_unavailable view (vin (mergedTx st) ! k) \<longrightarrow>
        (\<forall>txv \<in> set txvs. k < length (vin txv)))"
proof (induction E view ks h txvs st i rule: sign_tx_loop.induct)
  case (1 E view ks h txvs st i)
  show ?case
  proof (cases "i < length (vin (mergedTx st))")
    case False
    then show ?thesis by (simp add: sign_tx_loop_done)
  next
    case True
    show ?thesis
    proof (cases "sign_tx_input E view ks h txvs st i")
      case (Inl e)
      then have "\<not> input_unavailable view (vin (mergedTx st) ! i) \<and>
                 (\<exists>txv \<in> set txvs. length (vin txv) \<le> i)"
        using sign_tx_input_Inl_iff[of E view ks h txvs st i] by blast
      then have "\<not> (\<forall>k. i \<le> k \<and> k < length (vin (mergedTx st)) \<and>
        \<not> input_unavailable view (vin (mergedTx st) ! k) \<longrightarrow>
        (\<forall>txv \<in> set txvs. k < length (vin txv)))"
        using True by (auto simp: not_less intro!: exI[of _ i])
      then show ?thesis using Inl True by (simp add: sign_tx_loop_abort)
    next
      case (Inr st')
      note S = sign_tx_input_step[OF True Inr]
      have av: "input_unavailable view (vin (mergedTx st') ! k) =
                input_unavailable view (vin (mergedTx st) ! k)" for k
        by (rule input_unavailable_prevout) (rule S(4))
      have here: "\<not> input_unavailable view (vin (mergedTx st) ! i) \<longrightarrow>
                  (\<forall>txv \<in> set txvs. i < length (vin txv))"
        using sign_tx_input_Inl_iff[of E view ks h txvs st i] Inr by (auto simp: not_le)
      have "(\<exists>fin. sign_tx_loop E view ks h txvs st i = Inr fin) \<longleftrightarrow>
            (\<exists>fin. sign_tx_loop E view ks h txvs st' (Suc i) = Inr fin)"
        using True Inr by (simp add: sign_tx_loop_step)
      also have "\<dots> \<longleftrightarrow> (\<forall>k. Suc i \<le> k \<and> k < length (vin (mergedTx st)) \<and>
        \<not> input_unavailable view (vin (mergedTx st) ! k) \<longrightarrow>
        (\<forall>txv \<in> set txvs. k < length (vin txv)))"
        using "1.IH"[OF True Inr] by (simp add: av S(1))
      also have "\<dots> \<longleftrightarrow> (\<forall>k. i \<le> k \<and> k < length (vin (mergedTx st)) \<and>
        \<not> input_unavailable view (vin (mergedTx st) ! k) \<longrightarrow>
        (\<forall>txv \<in> set txvs. k < length (vin txv)))"
        using here by (metis Suc_leI le_eq_less_or_eq Suc_le_lessD)
      finally show ?thesis .
    qed
  qed
qed

lemma fHashSingle_ALL [simp]: "\<not> fHashSingle SIGHASH_ALL"
  by (simp add: fHashSingle_def SIGHASH_ALL_def SIGHASH_ANYONECANPAY_def SIGHASH_SINGLE_def)

lemma verify_input_engine_cong:
  "VerifyScript E' = VerifyScript E \<Longrightarrow> ScriptErrorString E' = ScriptErrorString E \<Longrightarrow>
   verify_input E' = verify_input E"
  by (intro ext) (simp add: verify_input_def split: prod.splits)

lemma sign_cert_input_as_tx:
  assumes "i < length (vin (mergedTx st))" "i < length (vin cert0)"
  shows "sign_tx_input (E\<lparr>CombineSignatures := \<lambda>pk tx j acc s. acc\<rparr>) view ks SIGHASH_ALL [cert0] st i =
         Inr (sign_cert_input E view ks st i)"
proof -
  have v: "verify_input (E\<lparr>CombineSignatures := \<lambda>pk tx j acc s. acc\<rparr>) = verify_input E"
    by (rule verify_input_engine_cong) simp_all
  show ?thesis
    using assms
    by (simp add: sign_tx_input_def sign_cert_input_def Let_def v set_scriptSig_same)
qed

lemma sign_cert_loop_as_tx:
  "length (vin (mergedTx st)) \<le> length (vin cert0) \<Longrightarrow>
   sign_tx_loop (E\<lparr>CombineSignatures := \<lambda>pk tx j acc s. acc\<rparr>) view ks SIGHASH_ALL [cert0] st i =
   Inr (sign_cert_loop E view ks st i)"
proof (induction E view ks st i rule: sign_cert_loop.induct)
  case (1 E view ks st i)
  show ?case
  proof (cases "i < length (vin (mergedTx st))")
    case False
    then show ?thesis by (simp add: sign_tx_loop_done sign_cert_loop.simps)
  next
    case True
    with "1.prems" have i: "i < length (vin cert0)" by simp
    have "sign_tx_loop (E\<lparr>CombineSignatures := \<lambda>pk tx j acc s. acc\<rparr>) view ks SIGHASH_ALL [cert0] st i =
          sign_tx_loop (E\<lparr>CombineSignatures := \<lambda>pk tx j acc s. acc\<rparr>) view ks SIGHASH_ALL [cert0]
            (sign_cert_input E view ks st i) (Suc i)"
      using True by (rule sign_tx_loop_step) (rule sign_cert_input_as_tx[OF True i])
    also have "\<dots> = Inr (sign_cert_loop E view ks (sign_cert_input E view ks st i) (Suc i))"
      using "1.IH"[OF True] "1.prems" by (simp add: sign_cert_input_length)
    also have "\<dots> = Inr (sign_cert_loop E view ks st i)"
      using True by (simp add: sign_cert_loop.simps[of E view ks st i])
    finally show ?thesis .
  qed
qed

lemma sign_tx_loop_all_unavailable:
  "\<forall>k. i \<le> k \<and> k < length (vin (mergedTx st)) \<longrightarrow> input_unavailable view (vin (mergedTx st) ! k) \<Longrightarrow>
   sign_tx_loop E view ks h txvs st i =
     Inr (st\<lparr>vErrors := vErrors st @ map not_found_error (drop i (vin (mergedTx st)))\<rparr>)"
proof (induction E view ks h txvs st i rule: sign_tx_loop.induct)
  case (1 E view ks h txvs st i)
  show ?case
  proof (cases "i < length (vin (mergedTx st))")
    case False
    then show ?thesis by (simp add: sign_tx_loop_done)
  next
    case True
    let ?st' = "st\<lparr>vErrors := vErrors st @ [not_found_error (vin (mergedTx st) ! i)]\<rparr>"
    have step: "sign_tx_input E view ks h txvs st i = Inr ?st'"
      using "1.prems" True by (simp add: sign_tx_input_unavailable)
    have "sign_tx_loop E view ks h txvs st i = sign_tx_loop E view ks h txvs ?st' (Suc i)"
      using True step by (rule sign_tx_loop_step)
    also have "\<dots> = Inr (?st'\<lparr>vErrors := vErrors ?st' @ map not_found_error (drop (Suc i) (vin (mergedTx ?st')))\<rparr>)"
      using "1.IH"[OF True step] "1.prems" by simp
    also have "\<dots> = Inr (st\<lparr>vErrors := vErrors st @ map not_found_error (drop i (vin (mergedTx st)))\<rparr>)"
      using True by (simp add: Cons_nth_drop_Suc[symmetric])
    finally show ?thesis .
  qed
qed

lemma sign_result_of_complete:
  "res_complete (sign_result_of st) \<longleftrightarrow> res_errors (sign_result_of st) = None"
  by (simp add: sign_result_of_def Let_def)

lemma signrawtransaction_Inr:
  "signrawtransaction E view ks txvs sht = Inr r \<Longrightarrow>
   \<exists>tx0 rest h fin. txvs = tx0 # rest \<and> parse_sighashtype sht = Inr h \<and>
     sign_tx_loop E view ks h txvs \<lparr>mergedTx = tx0, vErrors = [], signCalls = []\<rparr> 0 = Inr fin \<and>
     r = sign_result_of fin"
  by (auto simp: signrawtransaction_def split: list.splits sum.splits)

lemma signrawcertificate_loop:
  "\<exists>fin. sign_tx_loop (E\<lparr>CombineSignatures := \<lambda>pk tx j acc s. acc\<rparr>) view ks SIGHASH_ALL [cert]
            \<lparr>mergedTx = cert, vErrors = [], signCalls = []\<rparr> 0 = Inr fin \<and>
         signrawcertificate E view ks cert = sign_result_of fin"
  by (simp add: signrawcertificate_def sign_cert_loop_as_tx)

section \<open>Claims about the signature combination engine\<close>

lemma signrawtransaction_all_unavailable:
  assumes "parse_sighashtype sht = Inr h" "list_all (input_unavailable view) (vin txBase)"
  shows "signrawtransaction E view ks (txBase # txvs) sht =
        Inr \<lparr>res_hex = txBase, res_complete = (vin txBase = []),
             res_errors = (if vin txBase = [] then None else Some (map not_found_error (vin txBase)))\<rparr>"
proof -
  from assms(2)
  have "\<forall>k. 0 \<le> k \<and> k < length (vin txBase) \<longrightarrow> input_unavailable view (vin txBase ! k)"
    by (simp add: list_all_length)
  then have "sign_tx_loop E view ks h (txBase # txvs) \<lparr>mergedTx = txBase, vErrors = [], signCalls = []\<rparr> 0 =
        Inr \<lparr>mergedTx = txBase, vErrors = map not_found_error (vin txBase), signCalls = []\<rparr>"
    by (subst sign_tx_loop_all_unavailable) simp_all
  with assms(1) show ?thesis
    by (simp add: signrawtransaction_def sign_result_of_def)
qed

lemma signrawcertificate_all_unavailable:
  assumes "list_all (input_unavailable view) (vin cert)"
  shows "signrawcertificate E view ks cert =
        \<lparr>res_hex = cert, res_complete = (vin cert = []),
         res_errors = (if vin cert = [] then None else Some (map not_found_error (vin cert)))\<rparr>"
proof -
  from assms
  have "\<forall>k. 0 \<le> k \<and> k < length (vin cert) \<longrightarrow> input_unavailable view (vin cert ! k)"
    by (simp add: list_all_length)
  then have "sign_tx_loop (E\<lparr>CombineSignatures := \<lambda>pk tx j acc s. acc\<rparr>) view ks SIGHASH_ALL [cert]
        \<lparr>mergedTx = cert, vErrors = [], signCalls = []\<rparr> 0 =
        Inr \<lparr>mergedTx = cert, vErrors = map not_found_error (vin cert), signCalls = []\<rparr>"
    by (subst sign_tx_loop_all_unavailable) simp_all
  then show ?thesis
    using signrawcertificate_loop[of E view ks cert] by (auto simp: sign_result_of_def)
qed

lemmas ex_defs = ex_engine_def ex_view_def ex_txin_def ex_tx_def ex_cert_def

text \<open>
  Claim C1. The flag \<open>complete\<close> that \<^verbatim>\<open>signrawtransaction\<close> and
  \<^verbatim>\<open>signrawcertificate\<close> return is true exactly when no input produced an error (the
  key \<open>errors\<close> is absent). An entity with zero inputs yields \<open>complete = true\<close>. An
  entity with inputs, the referenced output of every one of them unavailable, yields
  \<open>complete = false\<close> and exactly one error record per input.
\<close>

theorem C1_complete_iff_no_errors:
  "(signrawtransaction E view ks txVariants sht = Inr r \<longrightarrow>
      (res_complete r \<longleftrightarrow> res_errors r = None)) \<and>
   (res_complete (signrawcertificate Ec view kc cert) \<longleftrightarrow>
      res_errors (signrawcertificate Ec view kc cert) = None) \<and>
   (parse_sighashtype sht = Inr h \<and> vin txBase = [] \<longrightarrow>
      (\<exists>r. signrawtransaction E view ks (txBase # txvs) sht = Inr r \<and> res_complete r)) \<and>
   (vin cert = [] \<longrightarrow> res_complete (signrawcertificate Ec view kc cert)) \<and>
   (parse_sighashtype sht = Inr h \<and> vin txBase \<noteq> [] \<and>
    list_all (input_unavailable view) (vin txBase) \<longrightarrow>
      (\<exists>r es. signrawtransaction E view ks (txBase # txvs) sht = Inr r \<and>
         \<not> res_complete r \<and> res_errors r = Some es \<and>
         es = map not_found_error (vin txBase) \<and> length es = length (vin txBase))) \<and>
   (vin cert \<noteq> [] \<and> list_all (input_unavailable view) (vin cert) \<longrightarrow>
      \<not> res_complete (signrawcertificate Ec view kc cert) \<and>
      (\<exists>es. res_errors (signrawcertificate Ec view kc cert) = Some es \<and>
         es = map not_found_error (vin cert) \<and> length es = length (vin cert)))"
proof -
  have p1: "signrawtransaction E view ks txVariants sht = Inr r \<longrightarrow>
      (res_complete r \<longleftrightarrow> res_errors r = None)"
    by (auto dest!: signrawtransaction_Inr simp: sign_result_of_complete)
  have p2: "res_complete (signrawcertificate Ec view kc cert) \<longleftrightarrow>
      res_errors (signrawcertificate Ec view kc cert) = None"
    by (simp add: signrawcertificate_def sign_result_of_complete)
  have p3: "parse_sighashtype sht = Inr h \<and> vin txBase = [] \<longrightarrow>
      (\<exists>r. signrawtransaction E view ks (txBase # txvs) sht = Inr r \<and> res_complete r)"
  proof (rule impI)
    assume a: "parse_sighashtype sht = Inr h \<and> vin txBase = []"
    then have "list_all (input_unavailable view) (vin txBase)" by simp
    with a show "\<exists>r. signrawtransaction E view ks (txBase # txvs) sht = Inr r \<and> res_complete r"
      by (simp add: signrawtransaction_all_unavailable[of sht h view txBase E ks txvs])
  qed
  have p4: "vin cert = [] \<longrightarrow> res_complete (signrawcertificate Ec view kc cert)"
  proof (rule impI)
    assume a: "vin cert = []"
    then have "list_all (input_unavailable view) (vin cert)" by simp
    with a show "res_complete (signrawcertificate Ec view kc cert)"
      by (simp add: signrawcertificate_all_unavailable[of view cert Ec kc])
  qed
  have p5: "parse_sighashtype sht = Inr h \<and> vin txBase \<noteq> [] \<and>
    list_all (input_unavailable view) (vin txBase) \<longrightarrow>
      (\<exists>r es. signrawtransaction E view ks (txBase # txvs) sht = Inr r \<and>
         \<not> res_complete r \<and> res_errors r = Some es \<and>
         es = map not_found_error (vin txBase) \<and> length es = length (vin txBase))"
  proof (rule impI)
    assume a: "parse_sighashtype sht = Inr h \<and> vin txBase \<noteq> [] \<and>
      list_all (input_unavailable view) (vin txBase)"
    then show "\<exists>r es. signrawtransaction E view ks (txBase # txvs) sht = Inr r \<and>
         \<not> res_complete r \<and> res_errors r = Some es \<and>
         es = map not_found_error (vin txBase) \<and> length es = length (vin txBase)"
      by (simp add: signrawtransaction_all_unavailable[of sht h view txBase E ks txvs])
  qed
  have p6: "vin cert \<noteq> [] \<and> list_all (input_unavailable view) (vin cert) \<longrightarrow>
      \<not> res_complete (signrawcertificate Ec view kc cert) \<and>
      (\<exists>es. res_errors (signrawcertificate Ec view kc cert) = Some es \<and>
         es = map not_found_error (vin cert) \<and> length es = length (vin cert))"
    by (simp add: signrawcertificate_all_unavailable[of view cert Ec kc])
  show ?thesis
    by (rule conjI[OF p1 conjI[OF p2 conjI[OF p3 conjI[OF p4 conjI[OF p5 p6]]]]])
qed

text \<open>
  The theorem of C1 at a transaction without inputs, at a transaction with two
  unavailable inputs, at a certificate with one, and at a certificate whose input
  resolves.
\<close>

theorem C1_complete_iff_no_errors_witness:
  "(\<exists>r. signrawtransaction ex_engine ex_view () [ex_tx []] None = Inr r \<and> res_complete r) \<and>
   res_complete (signrawcertificate ex_engine ex_view () (ex_cert [])) \<and>
   (\<exists>r es. signrawtransaction ex_engine ex_view () [ex_tx [ex_txin 8 [], ex_txin 9 []]]
              (Some ''NONE'') = Inr r \<and>
      \<not> res_complete r \<and> res_errors r = Some es \<and>
      es = [not_found_error (ex_txin 8 []), not_found_error (ex_txin 9 [])] \<and> length es = 2) \<and>
   \<not> res_complete (signrawcertificate ex_engine ex_view () (ex_cert [ex_txin 8 []])) \<and>
   (\<exists>es. res_errors (signrawcertificate ex_engine ex_view () (ex_cert [ex_txin 8 []])) = Some es \<and>
      es = [not_found_error (ex_txin 8 [])] \<and> length es = 1) \<and>
   res_complete (signrawcertificate ex_engine ex_view () (ex_cert [ex_txin 7 [0x51]])) =
     (res_errors (signrawcertificate ex_engine ex_view () (ex_cert [ex_txin 7 [0x51]])) = None)"
proof -
  have p: "parse_sighashtype (Some ''NONE'') = Inr SIGHASH_NONE"
    by (simp add: parse_sighashtype_def mapSigHashValues_def)
  have p0: "parse_sighashtype None = Inr SIGHASH_ALL"
    by (simp add: parse_sighashtype_def)
  have e0: "vin (ex_tx []) = []" by (simp add: ex_tx_def)
  have ec0: "vin (ex_cert []) = []" by (simp add: ex_cert_def)
  have v: "vin (ex_tx [ex_txin 8 [], ex_txin 9 []]) = [ex_txin 8 [], ex_txin 9 []]"
          "vin (ex_cert [ex_txin 8 []]) = [ex_txin 8 []]"
    by (simp_all add: ex_tx_def ex_cert_def)
  have n: "vin (ex_tx [ex_txin 8 [], ex_txin 9 []]) \<noteq> []" unfolding v by simp
  have nc: "vin (ex_cert [ex_txin 8 []]) \<noteq> []" unfolding v by simp
  have u: "list_all (input_unavailable ex_view) (vin (ex_tx [ex_txin 8 [], ex_txin 9 []]))"
    by (simp add: input_unavailable_def ex_defs)
  have uc: "list_all (input_unavailable ex_view) (vin (ex_cert [ex_txin 8 []]))"
    by (simp add: input_unavailable_def ex_defs)
  note a = C1_complete_iff_no_errors[THEN conjunct2, THEN conjunct2, THEN conjunct1, rule_format,
       OF conjI, OF p0 e0, of ex_engine ex_view "()" "[]"]
  note b = C1_complete_iff_no_errors[THEN conjunct2, THEN conjunct2, THEN conjunct2,
       THEN conjunct1, rule_format, OF ec0, of ex_engine ex_view "()"]
  note c = C1_complete_iff_no_errors[THEN conjunct2, THEN conjunct2, THEN conjunct2,
       THEN conjunct2, THEN conjunct1, rule_format, OF conjI, OF p conjI, OF n u,
       of ex_engine "()" "[]"]
  note d = C1_complete_iff_no_errors[THEN conjunct2, THEN conjunct2, THEN conjunct2,
       THEN conjunct2, THEN conjunct2, rule_format, OF conjI, OF nc uc, of ex_engine "()"]
  note e = C1_complete_iff_no_errors[THEN conjunct2, THEN conjunct1,
       of ex_engine ex_view "()" "ex_cert [ex_txin 7 [0x51]]"]
  from a b c d e show ?thesis unfolding v by simp
qed

lemma signrawtransaction_Cons_Inr:
  "signrawtransaction E view ks (tx # txvs) sht = Inr r \<Longrightarrow>
   \<exists>h fin. parse_sighashtype sht = Inr h \<and>
     sign_tx_loop E view ks h (tx # txvs) \<lparr>mergedTx = tx, vErrors = [], signCalls = []\<rparr> 0 = Inr fin \<and>
     r = sign_result_of fin"
  by (auto simp: signrawtransaction_def split: sum.splits)

lemma sign_tx_loop_unavailable_result:
  assumes run: "sign_tx_loop E view ks h txvs \<lparr>mergedTx = tx, vErrors = [], signCalls = []\<rparr> 0 = Inr fin"
    and i: "i < length (vin tx)" and u: "input_unavailable view (vin tx ! i)"
  shows "vin (mergedTx fin) ! i = vin tx ! i \<and>
      (\<exists>es. res_errors (sign_result_of fin) = Some es \<and> not_found_error (vin tx ! i) \<in> set es)"
proof -
  have "vin (mergedTx fin) ! i = vin tx ! i"
    using sign_tx_loop_inv[OF run] u by simp
  moreover have "not_found_error (vin tx ! i) \<in> set (vErrors fin)"
    using sign_tx_loop_errors_mem[OF run, of i] i u by simp
  ultimately show ?thesis by (auto simp: sign_result_of_def)
qed

text \<open>
  Claim C2, as amended. When the referenced output of input \<open>i\<close> cannot be resolved,
  both loops record the error \<open>Input not found or already spent\<close> for it, leave the
  entity as it is (the unlocking script of the input keeps the bytes it had: the script
  is cleared only after the test), and go on with input \<open>i + 1\<close>. In the result of a
  call that returns, such an input is the input that was given, and its error record is
  among the errors.
\<close>


theorem C2_unavailable_input_recorded_and_skipped:
  "(i < length (vin (mergedTx st)) \<and> input_unavailable view (vin (mergedTx st) ! i) \<longrightarrow>
      sign_tx_loop E view ks h txvs st i =
        sign_tx_loop E view ks h txvs
          (st\<lparr>vErrors := vErrors st @ [not_found_error (vin (mergedTx st) ! i)]\<rparr>) (Suc i)) \<and>
   (i < length (vin (mergedTx sc)) \<and> input_unavailable view (vin (mergedTx sc) ! i) \<longrightarrow>
      sign_cert_loop Ec view kc sc i =
        sign_cert_loop Ec view kc
          (sc\<lparr>vErrors := vErrors sc @ [not_found_error (vin (mergedTx sc) ! i)]\<rparr>) (Suc i)) \<and>
   (signrawtransaction E view ks (txBase # txvs) sht = Inr r \<and>
    i < length (vin txBase) \<and> input_unavailable view (vin txBase ! i) \<longrightarrow>
      vin (res_hex r) ! i = vin txBase ! i \<and>
      (\<exists>es. res_errors r = Some es \<and> not_found_error (vin txBase ! i) \<in> set es)) \<and>
   (i < length (vin cert) \<and> input_unavailable view (vin cert ! i) \<longrightarrow>
      vin (res_hex (signrawcertificate Ec view kc cert)) ! i = vin cert ! i \<and>
      (\<exists>es. res_errors (signrawcertificate Ec view kc cert) = Some es \<and>
            not_found_error (vin cert ! i) \<in> set es))"
proof -
  have p1: "i < length (vin (mergedTx st)) \<and> input_unavailable view (vin (mergedTx st) ! i) \<longrightarrow>
      sign_tx_loop E view ks h txvs st i =
        sign_tx_loop E view ks h txvs
          (st\<lparr>vErrors := vErrors st @ [not_found_error (vin (mergedTx st) ! i)]\<rparr>) (Suc i)"
    by (intro impI sign_tx_loop_step) (simp_all add: sign_tx_input_unavailable)
  have p2: "i < length (vin (mergedTx sc)) \<and> input_unavailable view (vin (mergedTx sc) ! i) \<longrightarrow>
      sign_cert_loop Ec view kc sc i =
        sign_cert_loop Ec view kc
          (sc\<lparr>vErrors := vErrors sc @ [not_found_error (vin (mergedTx sc) ! i)]\<rparr>) (Suc i)"
    by (subst sign_cert_loop.simps) (simp add: sign_cert_input_unavailable)
  have p3: "signrawtransaction E view ks (txBase # txvs) sht = Inr r \<and>
    i < length (vin txBase) \<and> input_unavailable view (vin txBase ! i) \<longrightarrow>
      vin (res_hex r) ! i = vin txBase ! i \<and>
      (\<exists>es. res_errors r = Some es \<and> not_found_error (vin txBase ! i) \<in> set es)"
  proof (rule impI)
    assume a: "signrawtransaction E view ks (txBase # txvs) sht = Inr r \<and>
      i < length (vin txBase) \<and> input_unavailable view (vin txBase ! i)"
    then obtain hh fin where
      run: "sign_tx_loop E view ks hh (txBase # txvs) \<lparr>mergedTx = txBase, vErrors = [], signCalls = []\<rparr> 0 = Inr fin"
      and r: "r = sign_result_of fin"
      using signrawtransaction_Cons_Inr[of E view ks txBase txvs sht r] by blast
    from sign_tx_loop_unavailable_result[OF run, of i] a r
    show "vin (res_hex r) ! i = vin txBase ! i \<and>
      (\<exists>es. res_errors r = Some es \<and> not_found_error (vin txBase ! i) \<in> set es)"
      by (simp add: sign_result_of_def)
  qed
  have p4: "i < length (vin cert) \<and> input_unavailable view (vin cert ! i) \<longrightarrow>
      vin (res_hex (signrawcertificate Ec view kc cert)) ! i = vin cert ! i \<and>
      (\<exists>es. res_errors (signrawcertificate Ec view kc cert) = Some es \<and>
            not_found_error (vin cert ! i) \<in> set es)"
  proof (rule impI)
    assume a: "i < length (vin cert) \<and> input_unavailable view (vin cert ! i)"
    obtain fin where
      run: "sign_tx_loop (Ec\<lparr>CombineSignatures := \<lambda>pk tx j acc s. acc\<rparr>) view kc SIGHASH_ALL [cert]
            \<lparr>mergedTx = cert, vErrors = [], signCalls = []\<rparr> 0 = Inr fin"
      and r: "signrawcertificate Ec view kc cert = sign_result_of fin"
      using signrawcertificate_loop[of Ec view kc cert] by (elim exE conjE)
    from sign_tx_loop_unavailable_result[OF run, of i] a r
    show "vin (res_hex (signrawcertificate Ec view kc cert)) ! i = vin cert ! i \<and>
      (\<exists>es. res_errors (signrawcertificate Ec view kc cert) = Some es \<and>
            not_found_error (vin cert ! i) \<in> set es)"
      by (simp add: sign_result_of_def)
  qed
  show ?thesis
    by (rule conjI[OF p1 conjI[OF p2 conjI[OF p3 p4]]])
qed


text \<open>The theorem of C2 at an unavailable input that carries the script \<open>[0x51]\<close>.\<close>

theorem C2_unavailable_input_recorded_and_skipped_witness:
  "sign_tx_loop ex_engine ex_view () SIGHASH_ALL [ex_tx [ex_txin 8 [0x51]]]
       \<lparr>mergedTx = ex_tx [ex_txin 8 [0x51]], vErrors = [], signCalls = []\<rparr> 0 =
     sign_tx_loop ex_engine ex_view () SIGHASH_ALL [ex_tx [ex_txin 8 [0x51]]]
       \<lparr>mergedTx = ex_tx [ex_txin 8 [0x51]], vErrors = [not_found_error (ex_txin 8 [0x51])],
        signCalls = []\<rparr> 1 \<and>
   sign_cert_loop ex_engine ex_view ()
       \<lparr>mergedTx = ex_cert [ex_txin 8 [0x51]], vErrors = [], signCalls = []\<rparr> 0 =
     sign_cert_loop ex_engine ex_view ()
       \<lparr>mergedTx = ex_cert [ex_txin 8 [0x51]], vErrors = [not_found_error (ex_txin 8 [0x51])],
        signCalls = []\<rparr> 1 \<and>
   (\<exists>r. signrawtransaction ex_engine ex_view () [ex_tx [ex_txin 7 [], ex_txin 8 [0x51]]] None = Inr r \<and>
        vin (res_hex r) ! 1 = ex_txin 8 [0x51] \<and>
        (\<exists>es. res_errors r = Some es \<and> not_found_error (ex_txin 8 [0x51]) \<in> set es)) \<and>
   vin (res_hex (signrawcertificate ex_engine ex_view () (ex_cert [ex_txin 7 [], ex_txin 8 [0x51]]))) ! 1 =
     ex_txin 8 [0x51] \<and>
   (\<exists>es. res_errors (signrawcertificate ex_engine ex_view () (ex_cert [ex_txin 7 [], ex_txin 8 [0x51]])) =
           Some es \<and> not_found_error (ex_txin 8 [0x51]) \<in> set es)"
proof -
  have u: "input_unavailable ex_view (ex_txin 8 [0x51])"
    by (simp add: input_unavailable_def ex_defs)
  have r: "signrawtransaction ex_engine ex_view () [ex_tx [ex_txin 7 [], ex_txin 8 [0x51]]] None =
       Inr \<lparr>res_hex = ex_tx [ex_txin 7 [], ex_txin 8 [0x51]], res_complete = False,
            res_errors = Some [\<lparr>err_txid = 7, err_vout = 0, err_scriptSig = [],
               err_sequence = 0xffffffff,
               err_error = ''Script evaluated without error but finished with a false/empty top stack element''\<rparr>,
              not_found_error (ex_txin 8 [0x51])]\<rparr>"
    by code_simp
  have a: "sign_tx_loop ex_engine ex_view () SIGHASH_ALL [ex_tx [ex_txin 8 [0x51]]]
       \<lparr>mergedTx = ex_tx [ex_txin 8 [0x51]], vErrors = [], signCalls = []\<rparr> 0 =
     sign_tx_loop ex_engine ex_view () SIGHASH_ALL [ex_tx [ex_txin 8 [0x51]]]
       \<lparr>mergedTx = ex_tx [ex_txin 8 [0x51]], vErrors = [not_found_error (ex_txin 8 [0x51])],
        signCalls = []\<rparr> 1"
    using C2_unavailable_input_recorded_and_skipped[THEN conjunct1, rule_format,
      of 0 "\<lparr>mergedTx = ex_tx [ex_txin 8 [0x51]], vErrors = [], signCalls = []\<rparr>" ex_view
         ex_engine "()" SIGHASH_ALL "[ex_tx [ex_txin 8 [0x51]]]"] u
    by (simp add: ex_tx_def)
  have b: "sign_cert_loop ex_engine ex_view ()
       \<lparr>mergedTx = ex_cert [ex_txin 8 [0x51]], vErrors = [], signCalls = []\<rparr> 0 =
     sign_cert_loop ex_engine ex_view ()
       \<lparr>mergedTx = ex_cert [ex_txin 8 [0x51]], vErrors = [not_found_error (ex_txin 8 [0x51])],
        signCalls = []\<rparr> 1"
    using C2_unavailable_input_recorded_and_skipped[THEN conjunct2, THEN conjunct1, rule_format,
      of 0 "\<lparr>mergedTx = ex_cert [ex_txin 8 [0x51]], vErrors = [], signCalls = []\<rparr>" ex_view
         ex_engine "()"] u
    by (simp add: ex_cert_def)
  have c: "vin (res_hex r') ! 1 = ex_txin 8 [0x51] \<and>
        (\<exists>es. res_errors r' = Some es \<and> not_found_error (ex_txin 8 [0x51]) \<in> set es)"
    if "signrawtransaction ex_engine ex_view () [ex_tx [ex_txin 7 [], ex_txin 8 [0x51]]] None = Inr r'"
    for r'
    using C2_unavailable_input_recorded_and_skipped[THEN conjunct2, THEN conjunct2, THEN conjunct1,
      rule_format, of ex_engine ex_view "()" "ex_tx [ex_txin 7 [], ex_txin 8 [0x51]]" "[]" None r' 1]
      that u
    by (simp add: ex_tx_def)
  have d: "vin (res_hex (signrawcertificate ex_engine ex_view () (ex_cert [ex_txin 7 [], ex_txin 8 [0x51]]))) ! 1 =
     ex_txin 8 [0x51] \<and>
   (\<exists>es. res_errors (signrawcertificate ex_engine ex_view () (ex_cert [ex_txin 7 [], ex_txin 8 [0x51]])) =
           Some es \<and> not_found_error (ex_txin 8 [0x51]) \<in> set es)"
    using C2_unavailable_input_recorded_and_skipped[THEN conjunct2, THEN conjunct2, THEN conjunct2,
      rule_format, of 1 "ex_cert [ex_txin 7 [], ex_txin 8 [0x51]]" ex_view ex_engine "()"] u
    by (simp add: ex_cert_def)
  from a b c[OF r] r d show ?thesis by blast
qed

text \<open>
  C2 as stated fails where the unavailable input arrives with a script: the script is
  returned as it came, not empty.
\<close>

theorem C2_script_not_cleared_counterexample:
  "input_unavailable ex_view (ex_txin 9 [0x51, 0x52]) \<and>
   signrawtransaction ex_engine ex_view () [ex_tx [ex_txin 9 [0x51, 0x52]]] None =
     Inr \<lparr>res_hex = \<lparr>nVersion = 1,
                     vin = [\<lparr>prevout = \<lparr>outpoint_hash = 9, outpoint_n = 0\<rparr>,
                             scriptSig = [0x51, 0x52], nSequence = 0xffffffff\<rparr>],
                     vout = [], nLockTime = 0\<rparr>,
          res_complete = False,
          res_errors = Some [\<lparr>err_txid = 9, err_vout = 0, err_scriptSig = [0x51, 0x52],
                              err_sequence = 0xffffffff,
                              err_error = ''Input not found or already spent''\<rparr>]\<rparr>"
  by code_simp

text \<open>
  Claim C6, as amended. \<^verbatim>\<open>signrawcertificate\<close> runs the per-input algorithm of
  \<^verbatim>\<open>signrawtransaction\<close> with three things fixed: the hash type is \<open>SIGHASH_ALL\<close>
  (it cannot be selected), exactly one certificate is given, and no script is merged, not
  even the script the certificate arrived with. Its result is the result of the
  transaction loop run on the single variant with the certificate's own signer and
  verifier and a combiner that returns its accumulator.
\<close>


theorem C6_certificate_loop_is_transaction_loop_without_merge:
  "signrawtransaction (E\<lparr>CombineSignatures := \<lambda>prevPubKey tx i acc s. acc\<rparr>) view keystore [cert] None =
   Inr (signrawcertificate E view keystore cert)"
  by (simp add: signrawtransaction_def signrawcertificate_def parse_sighashtype_def
        sign_cert_loop_as_tx)

text \<open>The theorem of C6 at a certificate with a resolved and an unresolved input.\<close>

theorem C6_certificate_loop_is_transaction_loop_without_merge_witness:
  "signrawtransaction (ex_engine\<lparr>CombineSignatures := \<lambda>prevPubKey tx i acc s. acc\<rparr>) ex_view ()
     [ex_cert [ex_txin 7 [0x51], ex_txin 8 []]] None =
   Inr \<lparr>res_hex = ex_cert [ex_txin 7 [], ex_txin 8 []], res_complete = False,
        res_errors = Some [\<lparr>err_txid = 7, err_vout = 0, err_scriptSig = [],
               err_sequence = 0xffffffff,
               err_error = ''Script evaluated without error but finished with a false/empty top stack element''\<rparr>,
              not_found_error (ex_txin 8 [])]\<rparr>"
proof -
  have "signrawcertificate ex_engine ex_view () (ex_cert [ex_txin 7 [0x51], ex_txin 8 []]) =
     \<lparr>res_hex = ex_cert [ex_txin 7 [], ex_txin 8 []], res_complete = False,
        res_errors = Some [\<lparr>err_txid = 7, err_vout = 0, err_scriptSig = [],
               err_sequence = 0xffffffff,
               err_error = ''Script evaluated without error but finished with a false/empty top stack element''\<rparr>,
              not_found_error (ex_txin 8 [])]\<rparr>"
    by code_simp
  then show ?thesis
    using C6_certificate_loop_is_transaction_loop_without_merge[of ex_engine ex_view "()"
        "ex_cert [ex_txin 7 [0x51], ex_txin 8 []]"]
    by simp
qed

text \<open>
  C6 as stated fails at an entity whose only input already carries the script that
  satisfies the locking script, signed without keys: with the same signer, combiner and
  verifier, the transaction loop folds the carried script back in and is complete, the
  certificate loop has cleared it and reports a verification error.
\<close>

theorem C6_certificate_not_merged_counterexample:
  "signrawtransaction ex_engine ex_view () [ex_cert [ex_txin 7 [0x51]]] None =
     Inr \<lparr>res_hex = ex_cert [ex_txin 7 [0x51]], res_complete = True, res_errors = None\<rparr> \<and>
   signrawcertificate ex_engine ex_view () (ex_cert [ex_txin 7 [0x51]]) =
     \<lparr>res_hex = ex_cert [ex_txin 7 []], res_complete = False,
      res_errors = Some [\<lparr>err_txid = 7, err_vout = 0, err_scriptSig = [],
               err_sequence = 0xffffffff,
               err_error = ''Script evaluated without error but finished with a false/empty top stack element''\<rparr>]\<rparr>"
  by code_simp

lemma fHashSingle_names:
  "map_of mapSigHashValues name = Some h \<Longrightarrow>
   fHashSingle h \<longleftrightarrow> name = ''SINGLE'' \<or> name = ''SINGLE|ANYONECANPAY''"
  by (auto simp: mapSigHashValues_def fHashSingle_def SIGHASH_ALL_def SIGHASH_NONE_def
        SIGHASH_SINGLE_def SIGHASH_ANYONECANPAY_def split: if_splits)

lemma sign_tx_input_errors:
  assumes "\<not> input_unavailable view (vin (mergedTx st) ! i)"
    and "sign_tx_input E view ks h txvs st i = Inr st'"
  shows "vErrors st' =
           verify_input E (prevPubKey_of view (vin (mergedTx st) ! i)) i
             (vin (mergedTx st') ! i) (mergedTx st') (vErrors st)"
  using assms by (auto simp: sign_tx_input_def Let_def split: sum.splits)

lemma merge_variants_engine_cong:
  "CombineSignatures E' = CombineSignatures E \<Longrightarrow>
   merge_variants E' prevPubKey i txvs tx = merge_variants E prevPubKey i txvs tx"
  by (induction txvs arbitrary: tx) simp_all

lemma sign_tx_input_signed:
  assumes "\<not> input_unavailable view (vin (mergedTx st) ! i)"
    and "\<not> fHashSingle h \<or> i < length (vout (mergedTx st))"
  shows "sign_tx_input E view ks h txvs st i =
     (case merge_variants E (prevPubKey_of view (vin (mergedTx st) ! i)) i txvs
             (set_scriptSig (mergedTx st) i
                (snd (SignSignature E ks (prevPubKey_of view (vin (mergedTx st) ! i))
                        (set_scriptSig (mergedTx st) i []) i h))) of
        Inl e \<Rightarrow> Inl e
      | Inr tx3 \<Rightarrow>
          Inr \<lparr>mergedTx = tx3,
               vErrors = verify_input E (prevPubKey_of view (vin (mergedTx st) ! i)) i
                           (vin tx3 ! i) tx3 (vErrors st),
               signCalls = signCalls st @ [i]\<rparr>)"
  using assms by (auto simp: sign_tx_input_def Let_def)

lemma sign_tx_input_unsigned:
  assumes "\<not> input_unavailable view (vin (mergedTx st) ! i)"
    and "fHashSingle h" and "\<not> i < length (vout (mergedTx st))"
  shows "sign_tx_input E view ks h txvs st i =
     (case merge_variants E (prevPubKey_of view (vin (mergedTx st) ! i)) i txvs
             (set_scriptSig (mergedTx st) i []) of
        Inl e \<Rightarrow> Inl e
      | Inr tx3 \<Rightarrow>
          Inr \<lparr>mergedTx = tx3,
               vErrors = verify_input E (prevPubKey_of view (vin (mergedTx st) ! i)) i
                           (vin tx3 ! i) tx3 (vErrors st),
               signCalls = signCalls st\<rparr>)"
  using assms by (simp add: sign_tx_input_def Let_def)

text \<open>
  Claim C8. Let input \<open>i\<close> of the working transaction resolve, and let the hash type be
  the value of one of the six symbols. When the symbol is neither \<open>SINGLE\<close> nor
  \<open>SINGLE|ANYONECANPAY\<close>, or the transaction has an output at index \<open>i\<close>, the body of the
  loop of \<^verbatim>\<open>signrawtransaction\<close> calls \<^verbatim>\<open>SignSignature\<close> on the transaction with
  the script of input \<open>i\<close> cleared, and it is the script which that call returns that is
  merged with the variants and verified. When the symbol is \<open>SINGLE\<close> or
  \<open>SINGLE|ANYONECANPAY\<close> and there is no output at index \<open>i\<close>, the empty script is merged
  and verified, and the result is the same for every signer. Over a run of the loop that
  returns, the indices at which the signer was called are those of the first kind. The
  errors after the body are the errors before it when the final script verifies, and one
  more record with the verifier's message when it does not: what the signer returned
  adds no error.
\<close>

theorem C8_signer_called_unless_single_without_output:
  "(map_of mapSigHashValues name = Some h \<and>
    \<not> input_unavailable view (vin (mergedTx st) ! i) \<and>
    ((name \<noteq> ''SINGLE'' \<and> name \<noteq> ''SINGLE|ANYONECANPAY'') \<or>
     i < length (vout (mergedTx st))) \<longrightarrow>
      sign_tx_input E view ks h txvs st i =
        (case merge_variants E (prevPubKey_of view (vin (mergedTx st) ! i)) i txvs
                (set_scriptSig (mergedTx st) i
                   (snd (SignSignature E ks (prevPubKey_of view (vin (mergedTx st) ! i))
                           (set_scriptSig (mergedTx st) i []) i h))) of
           Inl e \<Rightarrow> Inl e
         | Inr tx3 \<Rightarrow>
             Inr \<lparr>mergedTx = tx3,
                  vErrors = verify_input E (prevPubKey_of view (vin (mergedTx st) ! i)) i
                              (vin tx3 ! i) tx3 (vErrors st),
                  signCalls = signCalls st @ [i]\<rparr>)) \<and>
   (map_of mapSigHashValues name = Some h \<and>
    \<not> input_unavailable view (vin (mergedTx st) ! i) \<and>
    (name = ''SINGLE'' \<or> name = ''SINGLE|ANYONECANPAY'') \<and>
    \<not> i < length (vout (mergedTx st)) \<longrightarrow>
      sign_tx_input E view ks h txvs st i =
        (case merge_variants E (prevPubKey_of view (vin (mergedTx st) ! i)) i txvs
                (set_scriptSig (mergedTx st) i []) of
           Inl e \<Rightarrow> Inl e
         | Inr tx3 \<Rightarrow>
             Inr \<lparr>mergedTx = tx3,
                  vErrors = verify_input E (prevPubKey_of view (vin (mergedTx st) ! i)) i
                              (vin tx3 ! i) tx3 (vErrors st),
                  signCalls = signCalls st\<rparr>) \<and>
      sign_tx_input (E\<lparr>SignSignature := otherSigner\<rparr>) view ks h txvs st i =
        sign_tx_input E view ks h txvs st i) \<and>
   (map_of mapSigHashValues name = Some h \<and>
    sign_tx_loop E view ks h txvs \<lparr>mergedTx = txBase, vErrors = [], signCalls = []\<rparr> 0 = Inr fin \<and>
    i < length (vin txBase) \<and> \<not> input_unavailable view (vin txBase ! i) \<longrightarrow>
      (i \<in> set (signCalls fin) \<longleftrightarrow>
         (name \<noteq> ''SINGLE'' \<and> name \<noteq> ''SINGLE|ANYONECANPAY'') \<or> i < length (vout txBase))) \<and>
   (\<not> input_unavailable view (vin (mergedTx st) ! i) \<and>
    sign_tx_input E view ks h txvs st i = Inr st' \<longrightarrow>
      vErrors st' =
        (if fst (VerifyScript E (scriptSig (vin (mergedTx st') ! i))
                   (prevPubKey_of view (vin (mergedTx st) ! i)) (mergedTx st') i)
         then vErrors st
         else TxInErrorToJSON (vin (mergedTx st') ! i) (vErrors st)
                (ScriptErrorString E
                   (snd (VerifyScript E (scriptSig (vin (mergedTx st') ! i))
                           (prevPubKey_of view (vin (mergedTx st) ! i)) (mergedTx st') i)))))"
proof -
  let ?pk = "prevPubKey_of view (vin (mergedTx st) ! i)"
  have pA: "map_of mapSigHashValues name = Some h \<and>
    \<not> input_unavailable view (vin (mergedTx st) ! i) \<and>
    ((name \<noteq> ''SINGLE'' \<and> name \<noteq> ''SINGLE|ANYONECANPAY'') \<or>
     i < length (vout (mergedTx st))) \<longrightarrow>
      sign_tx_input E view ks h txvs st i =
        (case merge_variants E ?pk i txvs
                (set_scriptSig (mergedTx st) i
                   (snd (SignSignature E ks ?pk (set_scriptSig (mergedTx st) i []) i h))) of
           Inl e \<Rightarrow> Inl e
         | Inr tx3 \<Rightarrow>
             Inr \<lparr>mergedTx = tx3,
                  vErrors = verify_input E ?pk i (vin tx3 ! i) tx3 (vErrors st),
                  signCalls = signCalls st @ [i]\<rparr>)"
  proof (rule impI)
    assume a: "map_of mapSigHashValues name = Some h \<and>
      \<not> input_unavailable view (vin (mergedTx st) ! i) \<and>
      ((name \<noteq> ''SINGLE'' \<and> name \<noteq> ''SINGLE|ANYONECANPAY'') \<or>
       i < length (vout (mergedTx st)))"
    then have mp: "map_of mapSigHashValues name = Some h" by (rule conjunct1)
    have n: "fHashSingle h \<longleftrightarrow> name = ''SINGLE'' \<or> name = ''SINGLE|ANYONECANPAY''"
      by (rule fHashSingle_names[OF mp])
    from a have "(name \<noteq> ''SINGLE'' \<and> name \<noteq> ''SINGLE|ANYONECANPAY'') \<or>
       i < length (vout (mergedTx st))" by (rule conjunct2[OF conjunct2])
    then have c: "\<not> fHashSingle h \<or> i < length (vout (mergedTx st))"
      unfolding n by simp
    from a have u: "\<not> input_unavailable view (vin (mergedTx st) ! i)" by simp
    show "sign_tx_input E view ks h txvs st i =
        (case merge_variants E ?pk i txvs
                (set_scriptSig (mergedTx st) i
                   (snd (SignSignature E ks ?pk (set_scriptSig (mergedTx st) i []) i h))) of
           Inl e \<Rightarrow> Inl e
         | Inr tx3 \<Rightarrow>
             Inr \<lparr>mergedTx = tx3,
                  vErrors = verify_input E ?pk i (vin tx3 ! i) tx3 (vErrors st),
                  signCalls = signCalls st @ [i]\<rparr>)"
      by (rule sign_tx_input_signed[OF u c])
  qed
  have pB: "map_of mapSigHashValues name = Some h \<and>
    \<not> input_unavailable view (vin (mergedTx st) ! i) \<and>
    (name = ''SINGLE'' \<or> name = ''SINGLE|ANYONECANPAY'') \<and>
    \<not> i < length (vout (mergedTx st)) \<longrightarrow>
      sign_tx_input E view ks h txvs st i =
        (case merge_variants E ?pk i txvs (set_scriptSig (mergedTx st) i []) of
           Inl e \<Rightarrow> Inl e
         | Inr tx3 \<Rightarrow>
             Inr \<lparr>mergedTx = tx3,
                  vErrors = verify_input E ?pk i (vin tx3 ! i) tx3 (vErrors st),
                  signCalls = signCalls st\<rparr>) \<and>
      sign_tx_input (E\<lparr>SignSignature := otherSigner\<rparr>) view ks h txvs st i =
        sign_tx_input E view ks h txvs st i"
  proof (rule impI)
    assume a: "map_of mapSigHashValues name = Some h \<and>
      \<not> input_unavailable view (vin (mergedTx st) ! i) \<and>
      (name = ''SINGLE'' \<or> name = ''SINGLE|ANYONECANPAY'') \<and>
      \<not> i < length (vout (mergedTx st))"
    then have mp: "map_of mapSigHashValues name = Some h" by (rule conjunct1)
    have n: "fHashSingle h \<longleftrightarrow> name = ''SINGLE'' \<or> name = ''SINGLE|ANYONECANPAY''"
      by (rule fHashSingle_names[OF mp])
    from a have "name = ''SINGLE'' \<or> name = ''SINGLE|ANYONECANPAY''"
      by (rule conjunct1[OF conjunct2[OF conjunct2]])
    then have s: "fHashSingle h" unfolding n .
    from a have u: "\<not> input_unavailable view (vin (mergedTx st) ! i)"
      and o: "\<not> i < length (vout (mergedTx st))" by simp_all
    have m: "merge_variants (E\<lparr>SignSignature := otherSigner\<rparr>) = merge_variants E"
      by (intro ext, rule merge_variants_engine_cong) simp
    have v: "verify_input (E\<lparr>SignSignature := otherSigner\<rparr>) = verify_input E"
      by (rule verify_input_engine_cong) simp_all
    have e1: "sign_tx_input E view ks h txvs st i =
        (case merge_variants E ?pk i txvs (set_scriptSig (mergedTx st) i []) of
           Inl e \<Rightarrow> Inl e
         | Inr tx3 \<Rightarrow>
             Inr \<lparr>mergedTx = tx3,
                  vErrors = verify_input E ?pk i (vin tx3 ! i) tx3 (vErrors st),
                  signCalls = signCalls st\<rparr>)"
      by (rule sign_tx_input_unsigned[OF u s o])
    have e2: "sign_tx_input (E\<lparr>SignSignature := otherSigner\<rparr>) view ks h txvs st i =
        (case merge_variants E ?pk i txvs (set_scriptSig (mergedTx st) i []) of
           Inl e \<Rightarrow> Inl e
         | Inr tx3 \<Rightarrow>
             Inr \<lparr>mergedTx = tx3,
                  vErrors = verify_input E ?pk i (vin tx3 ! i) tx3 (vErrors st),
                  signCalls = signCalls st\<rparr>)"
      using sign_tx_input_unsigned[OF u s o, of "E\<lparr>SignSignature := otherSigner\<rparr>" ks txvs]
      by (simp only: m v)
    from e1 e2 show "sign_tx_input E view ks h txvs st i =
        (case merge_variants E ?pk i txvs (set_scriptSig (mergedTx st) i []) of
           Inl e \<Rightarrow> Inl e
         | Inr tx3 \<Rightarrow>
             Inr \<lparr>mergedTx = tx3,
                  vErrors = verify_input E ?pk i (vin tx3 ! i) tx3 (vErrors st),
                  signCalls = signCalls st\<rparr>) \<and>
      sign_tx_input (E\<lparr>SignSignature := otherSigner\<rparr>) view ks h txvs st i =
        sign_tx_input E view ks h txvs st i"
      by simp
  qed
  have p1: "map_of mapSigHashValues name = Some h \<and>
    sign_tx_loop E view ks h txvs \<lparr>mergedTx = txBase, vErrors = [], signCalls = []\<rparr> 0 = Inr fin \<and>
    i < length (vin txBase) \<and> \<not> input_unavailable view (vin txBase ! i) \<longrightarrow>
      (i \<in> set (signCalls fin) \<longleftrightarrow>
         (name \<noteq> ''SINGLE'' \<and> name \<noteq> ''SINGLE|ANYONECANPAY'') \<or> i < length (vout txBase))"
  proof (rule impI)
    assume a: "map_of mapSigHashValues name = Some h \<and>
      sign_tx_loop E view ks h txvs \<lparr>mergedTx = txBase, vErrors = [], signCalls = []\<rparr> 0 = Inr fin \<and>
      i < length (vin txBase) \<and> \<not> input_unavailable view (vin txBase ! i)"
    then have run: "sign_tx_loop E view ks h txvs \<lparr>mergedTx = txBase, vErrors = [], signCalls = []\<rparr> 0 = Inr fin"
      by simp
    from a have n: "fHashSingle h \<longleftrightarrow> name = ''SINGLE'' \<or> name = ''SINGLE|ANYONECANPAY''"
      by (simp add: fHashSingle_names)
    from sign_tx_loop_signCalls[OF run] a
    have "i \<in> set (signCalls fin) \<longleftrightarrow> \<not> fHashSingle h \<or> i < length (vout txBase)"
      by simp
    with n show "i \<in> set (signCalls fin) \<longleftrightarrow>
         (name \<noteq> ''SINGLE'' \<and> name \<noteq> ''SINGLE|ANYONECANPAY'') \<or> i < length (vout txBase)"
      by simp
  qed
  have p2: "\<not> input_unavailable view (vin (mergedTx st) ! i) \<and>
    sign_tx_input E view ks h txvs st i = Inr st' \<longrightarrow>
      vErrors st' =
        (if fst (VerifyScript E (scriptSig (vin (mergedTx st') ! i))
                   (prevPubKey_of view (vin (mergedTx st) ! i)) (mergedTx st') i)
         then vErrors st
         else TxInErrorToJSON (vin (mergedTx st') ! i) (vErrors st)
                (ScriptErrorString E
                   (snd (VerifyScript E (scriptSig (vin (mergedTx st') ! i))
                           (prevPubKey_of view (vin (mergedTx st) ! i)) (mergedTx st') i))))"
    by (auto dest!: sign_tx_input_errors simp: verify_input_def split: prod.splits)
  show ?thesis
    by (rule conjI[OF pA conjI[OF pB conjI[OF p1 p2]]])
qed

text \<open>
  The theorem of C8 with a signer that holds the key. Under \<open>ALL\<close> the script it returns
  is the script of the input afterwards and the input is complete; under \<open>SINGLE\<close> on a
  transaction without outputs the script stays empty, also in the run of the loop, and
  the same holds with the signer that has no key. Under \<open>ALL\<close> with the signer that has
  no key, an input whose merged script verifies gets no error.
\<close>

theorem C8_signer_called_unless_single_without_output_witness:
  "sign_tx_input ex_keyed_engine ex_view () SIGHASH_ALL [ex_tx [ex_txin 7 []]]
      \<lparr>mergedTx = ex_tx [ex_txin 7 []], vErrors = [], signCalls = []\<rparr> 0 =
     Inr \<lparr>mergedTx = ex_tx [ex_txin 7 [0x51]], vErrors = [], signCalls = [0]\<rparr> \<and>
   sign_tx_input ex_keyed_engine ex_view () SIGHASH_SINGLE [ex_tx [ex_txin 7 []]]
      \<lparr>mergedTx = ex_tx [ex_txin 7 []], vErrors = [], signCalls = []\<rparr> 0 =
     Inr \<lparr>mergedTx = ex_tx [ex_txin 7 []],
          vErrors = [\<lparr>err_txid = 7, err_vout = 0, err_scriptSig = [], err_sequence = 0xffffffff,
             err_error = ''Script evaluated without error but finished with a false/empty top stack element''\<rparr>],
          signCalls = []\<rparr> \<and>
   sign_tx_input (ex_keyed_engine\<lparr>SignSignature := SignSignature ex_engine\<rparr>) ex_view ()
      SIGHASH_SINGLE [ex_tx [ex_txin 7 []]]
      \<lparr>mergedTx = ex_tx [ex_txin 7 []], vErrors = [], signCalls = []\<rparr> 0 =
     sign_tx_input ex_keyed_engine ex_view () SIGHASH_SINGLE [ex_tx [ex_txin 7 []]]
      \<lparr>mergedTx = ex_tx [ex_txin 7 []], vErrors = [], signCalls = []\<rparr> 0 \<and>
   sign_tx_loop ex_keyed_engine ex_view () SIGHASH_SINGLE [ex_tx [ex_txin 7 []]]
      \<lparr>mergedTx = ex_tx [ex_txin 7 []], vErrors = [], signCalls = []\<rparr> 0 =
     Inr \<lparr>mergedTx = ex_tx [ex_txin 7 []],
          vErrors = [\<lparr>err_txid = 7, err_vout = 0, err_scriptSig = [], err_sequence = 0xffffffff,
             err_error = ''Script evaluated without error but finished with a false/empty top stack element''\<rparr>],
          signCalls = []\<rparr> \<and>
   (0 \<in> set (signCalls \<lparr>mergedTx = ex_tx [ex_txin 7 []],
          vErrors = [\<lparr>err_txid = 7, err_vout = 0, err_scriptSig = [], err_sequence = 0xffffffff,
             err_error = ''Script evaluated without error but finished with a false/empty top stack element''\<rparr>],
          signCalls = []\<rparr>)) =
     ((''SINGLE'' \<noteq> ''SINGLE'' \<and> ''SINGLE'' \<noteq> ''SINGLE|ANYONECANPAY'') \<or>
      0 < length (vout (ex_tx [ex_txin 7 []]))) \<and>
   sign_tx_input ex_engine ex_view () SIGHASH_ALL [ex_tx [ex_txin 7 [0x51]]]
      \<lparr>mergedTx = ex_tx [ex_txin 7 [0x51]], vErrors = [], signCalls = []\<rparr> 0 =
     Inr \<lparr>mergedTx = ex_tx [ex_txin 7 [0x51]], vErrors = [], signCalls = [0]\<rparr>"
proof -
  let ?st = "\<lparr>mergedTx = ex_tx [ex_txin 7 []], vErrors = [], signCalls = []\<rparr>"
  have mA: "map_of mapSigHashValues ''ALL'' = Some SIGHASH_ALL"
    by (simp add: mapSigHashValues_def)
  have m: "map_of mapSigHashValues ''SINGLE'' = Some SIGHASH_SINGLE"
    by (simp add: mapSigHashValues_def)
  have u: "\<not> input_unavailable ex_view (vin (mergedTx ?st) ! 0)"
    by (simp add: input_unavailable_def IsAvailable_def ex_defs)
  have cA: "(''ALL'' \<noteq> ''SINGLE'' \<and> ''ALL'' \<noteq> ''SINGLE|ANYONECANPAY'') \<or>
            0 < length (vout (mergedTx ?st))"
    by simp
  have cS: "''SINGLE'' = ''SINGLE'' \<or> ''SINGLE'' = ''SINGLE|ANYONECANPAY''"
    by simp
  have o: "\<not> 0 < length (vout (mergedTx ?st))"
    by (simp add: ex_tx_def)
  note A = C8_signer_called_unless_single_without_output[THEN conjunct1, rule_format,
      OF conjI, OF mA conjI, OF u cA]
  have a: "sign_tx_input ex_keyed_engine ex_view () SIGHASH_ALL [ex_tx [ex_txin 7 []]] ?st 0 =
     Inr \<lparr>mergedTx = ex_tx [ex_txin 7 [0x51]], vErrors = [], signCalls = [0]\<rparr>"
    by (rule trans[OF A]) code_simp
  note B = C8_signer_called_unless_single_without_output[THEN conjunct2, THEN conjunct1,
      rule_format, OF conjI, OF m conjI, OF u conjI, OF cS o]
  have b1: "sign_tx_input ex_keyed_engine ex_view () SIGHASH_SINGLE [ex_tx [ex_txin 7 []]] ?st 0 =
     Inr \<lparr>mergedTx = ex_tx [ex_txin 7 []],
          vErrors = [\<lparr>err_txid = 7, err_vout = 0, err_scriptSig = [], err_sequence = 0xffffffff,
             err_error = ''Script evaluated without error but finished with a false/empty top stack element''\<rparr>],
          signCalls = []\<rparr>"
    by (rule trans[OF B[THEN conjunct1]]) code_simp
  have b2: "sign_tx_input (ex_keyed_engine\<lparr>SignSignature := SignSignature ex_engine\<rparr>) ex_view ()
      SIGHASH_SINGLE [ex_tx [ex_txin 7 []]] ?st 0 =
     sign_tx_input ex_keyed_engine ex_view () SIGHASH_SINGLE [ex_tx [ex_txin 7 []]] ?st 0"
    by (rule B[THEN conjunct2])
  have run: "sign_tx_loop ex_keyed_engine ex_view () SIGHASH_SINGLE [ex_tx [ex_txin 7 []]] ?st 0 =
     Inr \<lparr>mergedTx = ex_tx [ex_txin 7 []],
          vErrors = [\<lparr>err_txid = 7, err_vout = 0, err_scriptSig = [], err_sequence = 0xffffffff,
             err_error = ''Script evaluated without error but finished with a false/empty top stack element''\<rparr>],
          signCalls = []\<rparr>"
    by code_simp
  have l: "0 < length (vin (ex_tx [ex_txin 7 []]))"
    by (simp add: ex_tx_def)
  have u': "\<not> input_unavailable ex_view (vin (ex_tx [ex_txin 7 []]) ! 0)"
    by (simp add: input_unavailable_def IsAvailable_def ex_defs)
  from C8_signer_called_unless_single_without_output[THEN conjunct2, THEN conjunct2,
      THEN conjunct1, rule_format, OF conjI, OF m conjI, OF run conjI, OF l u']
  have c: "(0 \<in> set (signCalls \<lparr>mergedTx = ex_tx [ex_txin 7 []],
          vErrors = [\<lparr>err_txid = 7, err_vout = 0, err_scriptSig = [], err_sequence = 0xffffffff,
             err_error = ''Script evaluated without error but finished with a false/empty top stack element''\<rparr>],
          signCalls = []\<rparr>)) =
     ((''SINGLE'' \<noteq> ''SINGLE'' \<and> ''SINGLE'' \<noteq> ''SINGLE|ANYONECANPAY'') \<or>
      0 < length (vout (ex_tx [ex_txin 7 []])))" .
  have step: "sign_tx_input ex_engine ex_view () SIGHASH_ALL [ex_tx [ex_txin 7 [0x51]]]
      \<lparr>mergedTx = ex_tx [ex_txin 7 [0x51]], vErrors = [], signCalls = []\<rparr> 0 =
     Inr \<lparr>mergedTx = ex_tx [ex_txin 7 [0x51]], vErrors = [], signCalls = [0]\<rparr>"
    by code_simp
  have u'': "\<not> input_unavailable ex_view
      (vin (mergedTx \<lparr>mergedTx = ex_tx [ex_txin 7 [0x51]], vErrors = [], signCalls = []\<rparr>) ! 0)"
    by (simp add: input_unavailable_def IsAvailable_def ex_defs)
  from C8_signer_called_unless_single_without_output[THEN conjunct2, THEN conjunct2,
      THEN conjunct2, rule_format, OF conjI, OF u'' step]
  have d: "vErrors \<lparr>mergedTx = ex_tx [ex_txin 7 [0x51]], vErrors = [], signCalls = [0::nat]\<rparr> = []"
    by (simp add: ex_defs prevPubKey_of_def)
  show ?thesis
    by (rule conjI[OF a conjI[OF b1 conjI[OF b2 conjI[OF run conjI[OF c step]]]]])
qed

text \<open>
  Claim C9, as amended. The merge loop reads \<^verbatim>\<open>txv.vin[i]\<close> of every variant without
  a bounds check, at every input index \<open>i\<close> whose referenced output resolves (an
  unresolved input is skipped before the merge). For a valid hash type,
  \<^verbatim>\<open>signrawtransaction\<close> reaches the read out of range exactly when some variant has
  no input at some index whose output resolves; when every variant has at least as many
  inputs as the base transaction, the call returns.
\<close>


theorem C9_out_of_range_iff_short_variant_at_resolved_input:
  "parse_sighashtype sht = Inr h \<longrightarrow>
     ((signrawtransaction E view ks (txBase # txvs) sht = Inl OutOfRange) \<longleftrightarrow>
        list_ex (\<lambda>i. \<not> input_unavailable view (vin txBase ! i) \<and>
                     list_ex (\<lambda>txv. length (vin txv) \<le> i) txvs)
          [0..<length (vin txBase)]) \<and>
     (list_all (\<lambda>txv. length (vin txBase) \<le> length (vin txv)) txvs \<longrightarrow>
        (\<exists>r. signrawtransaction E view ks (txBase # txvs) sht = Inr r))"
proof (rule impI)
  assume p: "parse_sighashtype sht = Inr h"
  let ?init = "\<lparr>mergedTx = txBase, vErrors = [], signCalls = []\<rparr>"
  let ?loop = "sign_tx_loop E view ks h (txBase # txvs) ?init 0"
  have ret: "(\<exists>fin. ?loop = Inr fin) \<longleftrightarrow>
     (\<forall>k. k < length (vin txBase) \<and> \<not> input_unavailable view (vin txBase ! k) \<longrightarrow>
        (\<forall>txv \<in> set txvs. k < length (vin txv)))"
    using sign_tx_loop_returns_iff[of E view ks h "txBase # txvs" ?init 0] by auto
  have oor: "?loop = Inl OutOfRange \<longleftrightarrow> \<not> (\<exists>fin. ?loop = Inr fin)"
    by (cases ?loop) (auto dest: sign_tx_loop_Inl)
  have s1: "signrawtransaction E view ks (txBase # txvs) sht = Inl OutOfRange \<longleftrightarrow> ?loop = Inl OutOfRange"
    using p by (simp add: signrawtransaction_def split: sum.splits)
  have s2: "(\<exists>r. signrawtransaction E view ks (txBase # txvs) sht = Inr r) \<longleftrightarrow> (\<exists>fin. ?loop = Inr fin)"
    using p by (simp add: signrawtransaction_def split: sum.splits)
  have c1: "(signrawtransaction E view ks (txBase # txvs) sht = Inl OutOfRange) \<longleftrightarrow>
        list_ex (\<lambda>i. \<not> input_unavailable view (vin txBase ! i) \<and>
                     list_ex (\<lambda>txv. length (vin txv) \<le> i) txvs)
          [0..<length (vin txBase)]"
    unfolding s1 oor ret by (auto simp: list_ex_iff not_less)
  have c2: "list_all (\<lambda>txv. length (vin txBase) \<le> length (vin txv)) txvs \<longrightarrow>
        (\<exists>r. signrawtransaction E view ks (txBase # txvs) sht = Inr r)"
    unfolding s2 ret by (auto simp: list_all_iff)
  show "((signrawtransaction E view ks (txBase # txvs) sht = Inl OutOfRange) \<longleftrightarrow>
        list_ex (\<lambda>i. \<not> input_unavailable view (vin txBase ! i) \<and>
                     list_ex (\<lambda>txv. length (vin txv) \<le> i) txvs)
          [0..<length (vin txBase)]) \<and>
     (list_all (\<lambda>txv. length (vin txBase) \<le> length (vin txv)) txvs \<longrightarrow>
        (\<exists>r. signrawtransaction E view ks (txBase # txvs) sht = Inr r))"
    by (rule conjI[OF c1 c2])
qed

text \<open>
  The theorem of C9 at a variant without inputs beside a base whose input resolves, and
  at a variant of the same shape.
\<close>

theorem C9_out_of_range_iff_short_variant_at_resolved_input_witness:
  "signrawtransaction ex_engine ex_view () [ex_tx [ex_txin 7 []], ex_tx []] None = Inl OutOfRange \<and>
   (\<exists>r. signrawtransaction ex_engine ex_view () [ex_tx [ex_txin 7 []], ex_tx [ex_txin 7 [0x51]]] None = Inr r)"
proof -
  have p: "parse_sighashtype None = Inr SIGHASH_ALL"
    by (simp add: parse_sighashtype_def)
  have a: "list_ex (\<lambda>i. \<not> input_unavailable ex_view (vin (ex_tx [ex_txin 7 []]) ! i) \<and>
                     list_ex (\<lambda>txv. length (vin txv) \<le> i) [ex_tx []])
          [0..<length (vin (ex_tx [ex_txin 7 []]))]"
    by (simp add: input_unavailable_def IsAvailable_def ex_defs)
  have b: "list_all (\<lambda>txv. length (vin (ex_tx [ex_txin 7 []])) \<le> length (vin txv)) [ex_tx [ex_txin 7 [0x51]]]"
    by (simp add: ex_defs)
  from C9_out_of_range_iff_short_variant_at_resolved_input[rule_format, OF p, THEN conjunct1,
      of ex_engine ex_view "()" "ex_tx [ex_txin 7 []]" "[ex_tx []]"] a
  have c: "signrawtransaction ex_engine ex_view () [ex_tx [ex_txin 7 []], ex_tx []] None = Inl OutOfRange"
    by simp
  from C9_out_of_range_iff_short_variant_at_resolved_input[rule_format, OF p, THEN conjunct2,
      rule_format, OF b, of ex_engine ex_view "()"]
  have d: "\<exists>r. signrawtransaction ex_engine ex_view () [ex_tx [ex_txin 7 []], ex_tx [ex_txin 7 [0x51]]] None = Inr r" .
  from c d show ?thesis by (rule conjI)
qed

text \<open>
  C9 as stated fails at a variant without inputs beside a base whose only input does not
  resolve: the variant lacks an input at index 0, the index is never read, and the call
  returns.
\<close>

theorem C9_short_variant_well_defined_counterexample:
  "length (vin (ex_tx [])) < length (vin (ex_tx [ex_txin 8 [0x51]])) \<and>
   signrawtransaction ex_engine ex_view () [ex_tx [ex_txin 8 [0x51]], ex_tx []] None =
     Inr \<lparr>res_hex = ex_tx [ex_txin 8 [0x51]], res_complete = False,
          res_errors = Some [not_found_error (ex_txin 8 [0x51])]\<rparr>"
  by code_simp

section \<open>Claims about \<^verbatim>\<open>CertToJSON\<close>\<close>

text \<open>
  Claim C7, at three scripts of a backward-transfer output. Without the byte
  \<open>OP_HASH160\<close> the string is \<open><<Decode error>>\<close>. In a pay-to-public-key-hash script
  the twenty bytes that follow the marker and the push length are returned in reverse
  order, in hexadecimal. Where fewer than twenty-one bytes follow the marker, the source
  reads past the end of the script: it reports no decode error there.
\<close>

theorem C7_truncated_backward_transfer_script_read_out_of_range:
  "bwt_pubkeyhash [0x76, 0x88, 0xac] = Inr ''<<Decode error>>'' \<and>
   bwt_pubkeyhash [0x76, 0xa9, 0x14,
                   0x01, 0x02, 0x03, 0x04, 0x05, 0x06, 0x07, 0x08, 0x09, 0x0a,
                   0x0b, 0x0c, 0x0d, 0x0e, 0x0f, 0x10, 0x11, 0x12, 0x13, 0x14,
                   0x88, 0xac] = Inr ''14131211100f0e0d0c0b0a090807060504030201'' \<and>
   bwt_pubkeyhash [0x76, 0xa9, 0x14, 0x01, 0x02, 0x03] = Inl OutOfRange \<and>
   CertToJSON_backward_transfer True \<lparr>nValue = 1, scriptPubKey = [0x76, 0xa9, 0x14, 0x01, 0x02, 0x03]\<rparr> =
     Inl OutOfRange"
  by code_simp

section \<open>Claims about the inclusion proofs\<close>

lemma txid_loop_finite:
  "txid_loop C txids S t = Inr (S', t') \<Longrightarrow> finite S \<Longrightarrow> finite S'"
  by (induction txids arbitrary: S t) (auto simp: Let_def split: if_splits)

lemma ntxFound_card:
  "distinct xs \<Longrightarrow> length (filter (\<lambda>x. x \<in> S) xs) = card (S \<inter> set xs)"
proof -
  assume d: "distinct xs"
  then have "distinct (filter (\<lambda>x. x \<in> S) xs)" by simp
  then have "length (filter (\<lambda>x. x \<in> S) xs) = card (set (filter (\<lambda>x. x \<in> S) xs))"
    by (simp only: distinct_card)
  also have "set (filter (\<lambda>x. x \<in> S) xs) = S \<inter> set xs" by auto
  finally show ?thesis .
qed

lemma ntxFound_eq_iff:
  assumes "distinct xs" "finite S"
  shows "length (filter (\<lambda>x. x \<in> S) xs) = card S \<longleftrightarrow> S \<subseteq> set xs"
proof -
  have "card (S \<inter> set xs) = card S \<longleftrightarrow> S \<inter> set xs = S"
    using assms(2) by (metis card_subset_eq inf_le1)
  then show ?thesis using assms(1) by (auto simp: ntxFound_card)
qed

lemma txid_loop_ok:
  "list_all (\<lambda>txid. length txid = 64 \<and> IsHex C txid) txids \<Longrightarrow>
   distinct (map (uint256S C) txids) \<Longrightarrow> set (map (uint256S C) txids) \<inter> S = {} \<Longrightarrow>
   txid_loop C txids S t =
     Inr (S \<union> set (map (uint256S C) txids), if txids = [] then t else uint256S C (last txids))"
proof (induction txids arbitrary: S t)
  case Nil
  then show ?case by simp
next
  case (Cons txid txids)
  have "txid_loop C txids (insert (uint256S C txid) S) (uint256S C txid) =
     Inr (insert (uint256S C txid) S \<union> set (map (uint256S C) txids),
          if txids = [] then uint256S C txid else uint256S C (last txids))"
    using Cons.prems by (intro Cons.IH) auto
  then show ?case using Cons.prems by (simp add: Let_def)
qed

lemma gettxoutproof_result:
  assumes "txid_loop C txids {} 0 = Inr (setTxids, oneTxid)"
    and "find_pblockindex C oneTxid blockhash = Inr pblockindex"
    and "ReadBlockFromDisk C pblockindex = Some block"
    and "distinct (vtx block)"
  shows "gettxoutproof mkMerkleBlock C txids blockhash =
       (if setTxids \<subseteq> set (vtx block) then Inr (mkMerkleBlock block setTxids)
        else Inl (JSONRPCError RPC_INVALID_ADDRESS_OR_KEY
                    ''(Not all) transactions not found in specified block''))"
proof -
  have f: "finite setTxids" using txid_loop_finite[OF assms(1)] by simp
  show ?thesis
    using assms by (simp add: gettxoutproof_def ntxFound_eq_iff[OF assms(4) f])
qed

subsection \<open>Building and replaying a proof\<close>

lemma upt_split: "a \<le> b \<Longrightarrow> b \<le> c \<Longrightarrow> [a ..< c] = [a ..< b] @ [b ..< c]"
  using upt_add_eq_append[of a b "c - b"] by simp

lemma upt_min_split:
  assumes "a \<le> b" "b \<le> c"
  shows "[a ..< min c n] = [a ..< min b n] @ [b ..< min c n]"
proof (cases "b \<le> n")
  case True
  then have "[a ..< min c n] = [a ..< b] @ [b ..< min c n]"
    using assms by (intro upt_split) simp_all
  then show ?thesis using True by (simp add: min_def)
next
  case False
  with assms show ?thesis by (simp add: min_def)
qed

lemma leaf_range_Suc:
  "leaf_range n (Suc h) pos = leaf_range n h (pos * 2) @ leaf_range n h (pos * 2 + 1)"
proof -
  have "[pos * 2 ^ Suc h ..< min ((pos + 1) * 2 ^ Suc h) n] =
        [pos * 2 ^ Suc h ..< min ((pos * 2 + 1) * 2 ^ h) n] @
        [(pos * 2 + 1) * 2 ^ h ..< min ((pos + 1) * 2 ^ Suc h) n]"
    by (rule upt_min_split) (simp_all add: algebra_simps)
  then show ?thesis by (simp add: leaf_range_def algebra_simps)
qed

lemma leaf_range_0: "pos < n \<Longrightarrow> leaf_range n 0 pos = [pos]"
  by (simp add: leaf_range_def min_def upt_conv_Cons)

lemma leaf_range_empty: "\<not> pos < CalcTreeWidth n h \<Longrightarrow> leaf_range n h pos = []"
  by (simp add: CalcTreeWidth_less_iff leaf_range_def)

lemma matched_below_Suc:
  "matched_below vTxid vMatch (Suc h) pos =
     matched_below vTxid vMatch h (pos * 2) @ matched_below vTxid vMatch h (pos * 2 + 1)"
  by (simp add: matched_below_def leaf_range_Suc)

lemma matched_below_empty:
  "\<not> pos < CalcTreeWidth (length vTxid) h \<Longrightarrow> matched_below vTxid vMatch h pos = []"
  by (simp add: matched_below_def leaf_range_empty)

lemma matched_below_no_match:
  "\<not> list_ex (\<lambda>p. vMatch ! p) (leaf_range (length vTxid) h pos) \<Longrightarrow>
   matched_below vTxid vMatch h pos = []"
  by (auto simp: matched_below_def list_ex_iff filter_empty_conv)

lemma child_in_tree:
  "pos < CalcTreeWidth n (Suc h) \<Longrightarrow> pos * 2 < CalcTreeWidth n h"
  by (simp add: CalcTreeWidth_less_iff algebra_simps)

lemma TraverseAndBuild_Suc:
  "TraverseAndBuild H vTxid vMatch (Suc h) pos =
     (if \<not> list_ex (\<lambda>p. vMatch ! p) (leaf_range (length vTxid) (Suc h) pos)
      then ([False], [CalcHash H vTxid (Suc h) pos])
      else (True # fst (TraverseAndBuild H vTxid vMatch h (pos * 2)) @
                   (if pos * 2 + 1 < CalcTreeWidth (length vTxid) h
                    then fst (TraverseAndBuild H vTxid vMatch h (pos * 2 + 1)) else []),
            snd (TraverseAndBuild H vTxid vMatch h (pos * 2)) @
                   (if pos * 2 + 1 < CalcTreeWidth (length vTxid) h
                    then snd (TraverseAndBuild H vTxid vMatch h (pos * 2 + 1)) else [])))"
  by (simp add: leaf_range_def Let_def split: prod.splits)

lemma TraverseAndExtract_Build:
  "pos < CalcTreeWidth (length vTxid) h \<Longrightarrow>
   TraverseAndExtract H (length vTxid) h pos
       (fst (TraverseAndBuild H vTxid vMatch h pos) @ bits)
       (snd (TraverseAndBuild H vTxid vMatch h pos) @ hashes) =
     Some (CalcHash H vTxid h pos, matched_below vTxid vMatch h pos, bits, hashes)"
proof (induction h arbitrary: pos bits hashes)
  case 0
  then have "pos < length vTxid" by (simp add: CalcTreeWidth_less_iff)
  then show ?case by (simp add: matched_below_def leaf_range_0)
next
  case (Suc h)
  let ?n = "length vTxid"
  show ?case
  proof (cases "list_ex (\<lambda>p. vMatch ! p) (leaf_range ?n (Suc h) pos)")
    case False
    then show ?thesis
      by (simp add: TraverseAndBuild_Suc matched_below_no_match del: TraverseAndBuild.simps CalcHash.simps)
  next
    case True
    have l: "pos * 2 < CalcTreeWidth ?n h" using Suc.prems by (rule child_in_tree)
    let ?bl = "fst (TraverseAndBuild H vTxid vMatch h (pos * 2))"
    let ?hl = "snd (TraverseAndBuild H vTxid vMatch h (pos * 2))"
    show ?thesis
    proof (cases "pos * 2 + 1 < CalcTreeWidth ?n h")
      case r: True
      let ?br = "fst (TraverseAndBuild H vTxid vMatch h (pos * 2 + 1))"
      let ?hr = "snd (TraverseAndBuild H vTxid vMatch h (pos * 2 + 1))"
      have L: "TraverseAndExtract H ?n h (pos * 2) (?bl @ ?br @ bits) (?hl @ ?hr @ hashes) =
            Some (CalcHash H vTxid h (pos * 2), matched_below vTxid vMatch h (pos * 2),
                  ?br @ bits, ?hr @ hashes)"
        using Suc.IH[OF l] .
      have R: "TraverseAndExtract H ?n h (pos * 2 + 1) (?br @ bits) (?hr @ hashes) =
            Some (CalcHash H vTxid h (pos * 2 + 1), matched_below vTxid vMatch h (pos * 2 + 1),
                  bits, hashes)"
        using Suc.IH[OF r] .
      show ?thesis
        using True r L R
        by (simp add: TraverseAndBuild_Suc matched_below_Suc Let_def del: TraverseAndBuild.simps)
    next
      case r: False
      have L: "TraverseAndExtract H ?n h (pos * 2) (?bl @ bits) (?hl @ hashes) =
            Some (CalcHash H vTxid h (pos * 2), matched_below vTxid vMatch h (pos * 2),
                  bits, hashes)"
        using Suc.IH[OF l] .
      show ?thesis
        using True r L
        by (simp add: TraverseAndBuild_Suc matched_below_Suc matched_below_empty Let_def
              del: TraverseAndBuild.simps)
    qed
  qed
qed

lemma tree_height_from_width:
  "\<not> 1 < CalcTreeWidth n (tree_height_from n h)"
proof (induction n h rule: tree_height_from.induct)
  case (1 n nHeight)
  then show ?case by (subst tree_height_from.simps) simp
qed

lemma tree_height_covers: "n \<le> 2 ^ tree_height n"
  using tree_height_from_width[of n 0]
  by (simp add: tree_height_def CalcTreeWidth_less_iff not_less)

lemma leaf_range_top: "leaf_range n (tree_height n) 0 = [0 ..< n]"
  using tree_height_covers[of n] by (simp add: leaf_range_def min_def)

lemma ExtractMatches_build:
  assumes "vTxid \<noteq> []"
  shows "ExtractMatches H (CPartialMerkleTree_build H vTxid vMatch) =
           Inr (BlockMerkleRoot H vTxid,
                map (\<lambda>p. vTxid ! p) (filter (\<lambda>p. vMatch ! p) [0 ..< length vTxid]))"
proof -
  let ?h = "tree_height (length vTxid)"
  have pos: "0 < CalcTreeWidth (length vTxid) ?h"
    using assms(1) by (simp add: CalcTreeWidth_less_iff)
  have "TraverseAndExtract H (length vTxid) ?h 0
          (fst (TraverseAndBuild H vTxid vMatch ?h 0) @ [])
          (snd (TraverseAndBuild H vTxid vMatch ?h 0) @ []) =
        Some (CalcHash H vTxid ?h 0, matched_below vTxid vMatch ?h 0, [], [])"
    using pos by (rule TraverseAndExtract_Build)
  then have "TraverseAndExtract H (length vTxid) ?h 0
          (fst (TraverseAndBuild H vTxid vMatch ?h 0))
          (snd (TraverseAndBuild H vTxid vMatch ?h 0)) =
        Some (BlockMerkleRoot H vTxid,
              map (\<lambda>p. vTxid ! p) (filter (\<lambda>p. vMatch ! p) [0 ..< length vTxid]), [], [])"
    by (simp add: BlockMerkleRoot_def matched_below_def leaf_range_top)
  then show ?thesis
    using assms
    by (simp add: ExtractMatches_def CPartialMerkleTree_build_def case_prod_beta)
qed

lemma matched_of_set:
  "map (\<lambda>p. xs ! p) (filter (\<lambda>p. map f xs ! p) [0 ..< length xs]) = filter f xs"
proof -
  have "filter (\<lambda>p. map f xs ! p) [0 ..< length xs] = filter (\<lambda>p. f (xs ! p)) [0 ..< length xs]"
    by (rule filter_cong) simp_all
  then have "map (\<lambda>p. xs ! p) (filter (\<lambda>p. map f xs ! p) [0 ..< length xs]) =
             filter f (map (\<lambda>p. xs ! p) [0 ..< length xs])"
    by (simp add: filter_map comp_def)
  also have "\<dots> = filter f xs" by (simp add: map_nth)
  finally show ?thesis .
qed

lemma ExtractMatches_CMerkleBlock_build:
  "vtx block \<noteq> [] \<Longrightarrow>
   ExtractMatches H (txn (CMerkleBlock_build H block txids)) =
     Inr (BlockMerkleRoot H (vtx block), filter (\<lambda>tx. tx \<in> txids) (vtx block))"
  by (simp add: CMerkleBlock_build_def ExtractMatches_build matched_of_set)


text \<open>
  Claim C3. Let a well-formed request name at least one txid, all of them ids of the
  block that is resolved and read for it; let the block list each id once and declare in
  its header the root of the tree over its ids, and let the block with the hash of that
  header be on the active chain. Then \<^verbatim>\<open>gettxoutproof\<close> returns a proof,
  \<^verbatim>\<open>verifytxoutproof\<close> returns a list for that proof without an error, and the
  elements of the list are exactly the requested ids (in hexadecimal).
\<close>

theorem C3_round_trip:
  "list_all (\<lambda>txid. length txid = 64 \<and> IsHex C txid) txids \<and>
   distinct (map (uint256S C) txids) \<and> txids \<noteq> [] \<and>
   find_pblockindex C (uint256S C (last txids)) blockhash = Inr pblockindex \<and>
   ReadBlockFromDisk C pblockindex = Some block \<and>
   distinct (vtx block) \<and>
   hashMerkleRoot (header block) = BlockMerkleRoot H (vtx block) \<and>
   set (map (uint256S C) txids) \<subseteq> set (vtx block) \<and>
   mapBlockIndex C (BlockHeader_GetHash C (header block)) = Some pindex \<and>
   chainActive_Contains C pindex \<longrightarrow>
     (\<exists>proof res.
        gettxoutproof (CMerkleBlock_build H) C txids blockhash = Inr proof \<and>
        verifytxoutproof (ExtractMatches H) C proof = Inr res \<and>
        set res = GetHex C ` set (map (uint256S C) txids))"
proof (rule impI)
  define S where "S = set (map (uint256S C) txids)"
  assume a: "list_all (\<lambda>txid. length txid = 64 \<and> IsHex C txid) txids \<and>
   distinct (map (uint256S C) txids) \<and> txids \<noteq> [] \<and>
   find_pblockindex C (uint256S C (last txids)) blockhash = Inr pblockindex \<and>
   ReadBlockFromDisk C pblockindex = Some block \<and>
   distinct (vtx block) \<and>
   hashMerkleRoot (header block) = BlockMerkleRoot H (vtx block) \<and>
   set (map (uint256S C) txids) \<subseteq> set (vtx block) \<and>
   mapBlockIndex C (BlockHeader_GetHash C (header block)) = Some pindex \<and>
   chainActive_Contains C pindex"
  then have loop: "txid_loop C txids {} 0 = Inr (S, uint256S C (last txids))"
    using txid_loop_ok[of C txids "{}" 0] by (simp add: S_def)
  from a have sub: "S \<subseteq> set (vtx block)" and Sne: "S \<noteq> {}"
    by (simp_all add: S_def)
  from a have fp: "find_pblockindex C (uint256S C (last txids)) blockhash = Inr pblockindex"
    and rd: "ReadBlockFromDisk C pblockindex = Some block" and dv: "distinct (vtx block)"
    and rt: "hashMerkleRoot (header block) = BlockMerkleRoot H (vtx block)"
    and mi: "mapBlockIndex C (BlockHeader_GetHash C (header block)) = Some pindex"
    and ac: "chainActive_Contains C pindex"
    by simp_all
  have build: "gettxoutproof (CMerkleBlock_build H) C txids blockhash =
               Inr (CMerkleBlock_build H block S)"
    using gettxoutproof_result[OF loop fp rd dv, of "CMerkleBlock_build H"] sub by simp
  from sub Sne have ne: "vtx block \<noteq> []" by auto
  have ex: "ExtractMatches H (txn (CMerkleBlock_build H block S)) =
            Inr (BlockMerkleRoot H (vtx block), filter (\<lambda>tx. tx \<in> S) (vtx block))"
    using ne by (rule ExtractMatches_CMerkleBlock_build)
  have hd: "mb_header (CMerkleBlock_build H block S) = header block"
    by (simp add: CMerkleBlock_build_def)
  have verify: "verifytxoutproof (ExtractMatches H) C (CMerkleBlock_build H block S) =
                Inr (map (GetHex C) (filter (\<lambda>tx. tx \<in> S) (vtx block)))"
    by (simp add: verifytxoutproof_def ex hd rt mi ac)
  have "set (filter (\<lambda>tx. tx \<in> S) (vtx block)) = S"
    using sub by auto
  then have "set (map (GetHex C) (filter (\<lambda>tx. tx \<in> S) (vtx block))) = GetHex C ` S"
    by (simp only: set_map)
  with build verify
  have "\<exists>proof res.
        gettxoutproof (CMerkleBlock_build H) C txids blockhash = Inr proof \<and>
        verifytxoutproof (ExtractMatches H) C proof = Inr res \<and>
        set res = GetHex C ` S"
    by blast
  then show "\<exists>proof res.
        gettxoutproof (CMerkleBlock_build H) C txids blockhash = Inr proof \<and>
        verifytxoutproof (ExtractMatches H) C proof = Inr res \<and>
        set res = GetHex C ` set (map (uint256S C) txids)"
    unfolding S_def .
qed

text \<open>
  The theorem of C3 at the example block \<open>[a, b, c, d]\<close> and the ids \<open>b\<close> and \<open>d\<close>.
\<close>

theorem C3_round_trip_witness:
  "\<exists>proof res.
     gettxoutproof (CMerkleBlock_build ex_H) ex_chain [ex_txid CHR ''b'', ex_txid CHR ''d'']
       (Some (ex_txid CHR ''p'')) = Inr proof \<and>
     verifytxoutproof (ExtractMatches ex_H) ex_chain proof = Inr res \<and>
     set res = {ex_txid CHR ''b'', ex_txid CHR ''d''}"
proof -
  let ?txids = "[ex_txid CHR ''b'', ex_txid CHR ''d'']"
  have h1: "list_all (\<lambda>txid. length txid = 64 \<and> IsHex ex_chain txid) ?txids"
    by code_simp
  have ids: "map (uint256S ex_chain) ?txids = [98, 100]"
    by code_simp
  have h2: "distinct (map (uint256S ex_chain) ?txids)"
    unfolding ids by simp
  have h3: "?txids \<noteq> []" by simp
  have h4: "find_pblockindex ex_chain (uint256S ex_chain (last ?txids)) (Some (ex_txid CHR ''p'')) = Inr 1"
    by code_simp
  have h5: "ReadBlockFromDisk ex_chain 1 = Some ex_block"
    by (simp add: ex_chain_def)
  have h6: "distinct (vtx ex_block)"
    by (simp add: ex_block_def)
  have h7: "hashMerkleRoot (header ex_block) = BlockMerkleRoot ex_H (vtx ex_block)"
    by code_simp
  have h8: "set (map (uint256S ex_chain) ?txids) \<subseteq> set (vtx ex_block)"
    unfolding ids by (simp add: ex_block_def)
  have h9: "mapBlockIndex ex_chain (BlockHeader_GetHash ex_chain (header ex_block)) = Some 1"
    by (simp add: ex_chain_def ex_block_def)
  have h10: "chainActive_Contains ex_chain 1"
    by (simp add: ex_chain_def)
  have g: "GetHex ex_chain ` set (map (uint256S ex_chain) ?txids) = {ex_txid CHR ''b'', ex_txid CHR ''d''}"
    unfolding ids by (simp add: ex_chain_def)
  from C3_round_trip[rule_format, OF conjI, OF h1 conjI, OF h2 conjI, OF h3 conjI, OF h4 conjI,
      OF h5 conjI, OF h6 conjI, OF h7 conjI, OF h8 conjI, OF h9 h10]
  show ?thesis unfolding g .
qed

text \<open>
  Claim C4. Let the extraction of a deserialised proof return a root and the matched ids.
  When the root differs from the root the header declares, \<^verbatim>\<open>verifytxoutproof\<close>
  returns the empty list, whatever the chain state. When the roots agree and the hash of
  the header is not in the block index, or its block is not on the active chain, the call
  fails with \<open>Block not found in chain\<close>; when the block is on the active chain it returns
  the matched ids in hexadecimal.
\<close>

theorem C4_root_mismatch_distinct_from_unknown_block:
  "extractMatches (txn merkleBlock) = Inr (root, vMatch) \<longrightarrow>
     (root \<noteq> hashMerkleRoot (mb_header merkleBlock) \<longrightarrow>
        verifytxoutproof extractMatches C merkleBlock = Inr []) \<and>
     (root = hashMerkleRoot (mb_header merkleBlock) \<and>
      (case mapBlockIndex C (BlockHeader_GetHash C (mb_header merkleBlock)) of
         None \<Rightarrow> True | Some pindex \<Rightarrow> \<not> chainActive_Contains C pindex) \<longrightarrow>
        verifytxoutproof extractMatches C merkleBlock =
          Inl (JSONRPCError RPC_INVALID_ADDRESS_OR_KEY ''Block not found in chain'')) \<and>
     (root = hashMerkleRoot (mb_header merkleBlock) \<and>
      (case mapBlockIndex C (BlockHeader_GetHash C (mb_header merkleBlock)) of
         None \<Rightarrow> False | Some pindex \<Rightarrow> chainActive_Contains C pindex) \<longrightarrow>
        verifytxoutproof extractMatches C merkleBlock = Inr (map (GetHex C) vMatch))"
  by (auto simp: verifytxoutproof_def split: option.splits)

text \<open>
  The theorem of C4 at a proof for \<open>b\<close> and \<open>d\<close> of the example block: with a wrong
  declared root, with a header the chain does not know, and as built.
\<close>

theorem C4_root_mismatch_distinct_from_unknown_block_witness:
  "verifytxoutproof (ExtractMatches ex_H) ex_chain
     \<lparr>mb_header = \<lparr>hashPrevBlock = 111, hashMerkleRoot = 6338, nTime = 0\<rparr>,
      txn = \<lparr>nTransactions = 4, vBits = [True, True, False, True, True, False, True],
             vHash = [97, 98, 99, 100]\<rparr>\<rparr> = Inr [] \<and>
   verifytxoutproof (ExtractMatches ex_H) ex_chain
     \<lparr>mb_header = \<lparr>hashPrevBlock = 222, hashMerkleRoot = 6337, nTime = 0\<rparr>,
      txn = \<lparr>nTransactions = 4, vBits = [True, True, False, True, True, False, True],
             vHash = [97, 98, 99, 100]\<rparr>\<rparr> =
     Inl (JSONRPCError RPC_INVALID_ADDRESS_OR_KEY ''Block not found in chain'') \<and>
   verifytxoutproof (ExtractMatches ex_H) ex_chain
     \<lparr>mb_header = \<lparr>hashPrevBlock = 111, hashMerkleRoot = 6337, nTime = 0\<rparr>,
      txn = \<lparr>nTransactions = 4, vBits = [True, True, False, True, True, False, True],
             vHash = [97, 98, 99, 100]\<rparr>\<rparr> =
     Inr [ex_txid CHR ''b'', ex_txid CHR ''d'']"
proof -
  let ?t = "\<lparr>nTransactions = 4, vBits = [True, True, False, True, True, False, True],
             vHash = [97, 98, 99, 100]\<rparr>"
  have e: "ExtractMatches ex_H ?t = Inr (6337, [98, 100])"
    by code_simp
  have e1: "ExtractMatches ex_H (txn \<lparr>mb_header = \<lparr>hashPrevBlock = h, hashMerkleRoot = r, nTime = 0\<rparr>,
      txn = ?t\<rparr>) = Inr (6337, [98, 100])" for h r
    using e by simp
  have a: "verifytxoutproof (ExtractMatches ex_H) ex_chain
     \<lparr>mb_header = \<lparr>hashPrevBlock = 111, hashMerkleRoot = 6338, nTime = 0\<rparr>, txn = ?t\<rparr> = Inr []"
    using C4_root_mismatch_distinct_from_unknown_block[where extractMatches = "ExtractMatches ex_H"
        and C = ex_chain and root = 6337 and vMatch = "[98, 100]"
        and merkleBlock = "\<lparr>mb_header = \<lparr>hashPrevBlock = 111, hashMerkleRoot = 6338, nTime = 0\<rparr>, txn = ?t\<rparr>"]
      e1
    by simp
  have b: "verifytxoutproof (ExtractMatches ex_H) ex_chain
     \<lparr>mb_header = \<lparr>hashPrevBlock = 222, hashMerkleRoot = 6337, nTime = 0\<rparr>, txn = ?t\<rparr> =
     Inl (JSONRPCError RPC_INVALID_ADDRESS_OR_KEY ''Block not found in chain'')"
    using C4_root_mismatch_distinct_from_unknown_block[where extractMatches = "ExtractMatches ex_H"
        and C = ex_chain and root = 6337 and vMatch = "[98, 100]"
        and merkleBlock = "\<lparr>mb_header = \<lparr>hashPrevBlock = 222, hashMerkleRoot = 6337, nTime = 0\<rparr>, txn = ?t\<rparr>"]
      e1
    by (simp add: ex_chain_def)
  have c: "verifytxoutproof (ExtractMatches ex_H) ex_chain
     \<lparr>mb_header = \<lparr>hashPrevBlock = 111, hashMerkleRoot = 6337, nTime = 0\<rparr>, txn = ?t\<rparr> =
     Inr (map (GetHex ex_chain) [98, 100])"
    using C4_root_mismatch_distinct_from_unknown_block[where extractMatches = "ExtractMatches ex_H"
        and C = ex_chain and root = 6337 and vMatch = "[98, 100]"
        and merkleBlock = "\<lparr>mb_header = \<lparr>hashPrevBlock = 111, hashMerkleRoot = 6337, nTime = 0\<rparr>, txn = ?t\<rparr>"]
      e1
    by (simp add: ex_chain_def)
  have g: "map (GetHex ex_chain) [98, 100] = [ex_txid CHR ''b'', ex_txid CHR ''d'']"
    by (simp add: ex_chain_def)
  from a b c show ?thesis unfolding g by simp
qed

text \<open>
  Claim C5, as amended. Let the txids of a request be well formed and pairwise
  different, let the block of the request be found and read, and let the block list each
  transaction id once. Then \<^verbatim>\<open>gettxoutproof\<close> returns the proof for the block and
  the requested ids when every requested id is in the block, and otherwise fails as a
  whole with the message \<open>(Not all) transactions not found in specified block\<close>.
\<close>

theorem C5_all_or_nothing:
  "list_all (\<lambda>txid. length txid = 64 \<and> IsHex C txid) txids \<and>
   distinct (map (uint256S C) txids) \<and>
   find_pblockindex C (if txids = [] then 0 else uint256S C (last txids)) blockhash =
     Inr pblockindex \<and>
   ReadBlockFromDisk C pblockindex = Some block \<and> distinct (vtx block) \<longrightarrow>
     gettxoutproof mkMerkleBlock C txids blockhash =
       (if set (map (uint256S C) txids) \<subseteq> set (vtx block)
        then Inr (mkMerkleBlock block (set (map (uint256S C) txids)))
        else Inl (JSONRPCError RPC_INVALID_ADDRESS_OR_KEY
                    ''(Not all) transactions not found in specified block''))"
proof (rule impI)
  define S where "S = set (map (uint256S C) txids)"
  assume a: "list_all (\<lambda>txid. length txid = 64 \<and> IsHex C txid) txids \<and>
   distinct (map (uint256S C) txids) \<and>
   find_pblockindex C (if txids = [] then 0 else uint256S C (last txids)) blockhash =
     Inr pblockindex \<and>
   ReadBlockFromDisk C pblockindex = Some block \<and> distinct (vtx block)"
  then have loop: "txid_loop C txids {} 0 =
      Inr (S, if txids = [] then 0 else uint256S C (last txids))"
    using txid_loop_ok[of C txids "{}" 0] by (simp add: S_def)
  from a have fp: "find_pblockindex C (if txids = [] then 0 else uint256S C (last txids)) blockhash =
      Inr pblockindex"
    and rd: "ReadBlockFromDisk C pblockindex = Some block" and dv: "distinct (vtx block)"
    by simp_all
  have "gettxoutproof mkMerkleBlock C txids blockhash =
       (if S \<subseteq> set (vtx block) then Inr (mkMerkleBlock block S)
        else Inl (JSONRPCError RPC_INVALID_ADDRESS_OR_KEY
                    ''(Not all) transactions not found in specified block''))"
    by (rule gettxoutproof_result[OF loop fp rd dv])
  then show "gettxoutproof mkMerkleBlock C txids blockhash =
       (if set (map (uint256S C) txids) \<subseteq> set (vtx block)
        then Inr (mkMerkleBlock block (set (map (uint256S C) txids)))
        else Inl (JSONRPCError RPC_INVALID_ADDRESS_OR_KEY
                    ''(Not all) transactions not found in specified block''))"
    unfolding S_def .
qed

text \<open>The theorem of C5 at the example block, for the ids \<open>b, d\<close> and for \<open>b, e\<close>.\<close>

theorem C5_all_or_nothing_witness:
  "gettxoutproof (CMerkleBlock_build ex_H) ex_chain [ex_txid CHR ''b'', ex_txid CHR ''d'']
      (Some (ex_txid CHR ''p'')) =
     Inr (CMerkleBlock_build ex_H ex_block {98, 100}) \<and>
   gettxoutproof (CMerkleBlock_build ex_H) ex_chain [ex_txid CHR ''b'', ex_txid CHR ''e'']
      (Some (ex_txid CHR ''p'')) =
     Inl (JSONRPCError RPC_INVALID_ADDRESS_OR_KEY
            ''(Not all) transactions not found in specified block'')"
proof -
  have v1: "list_all (\<lambda>txid. length txid = 64 \<and> IsHex ex_chain txid)
              [ex_txid CHR ''b'', ex_txid CHR ''d'']"
    by code_simp
  have v2: "list_all (\<lambda>txid. length txid = 64 \<and> IsHex ex_chain txid)
              [ex_txid CHR ''b'', ex_txid CHR ''e'']"
    by code_simp
  have i1: "map (uint256S ex_chain) [ex_txid CHR ''b'', ex_txid CHR ''d''] = [98, 100]"
    by code_simp
  have i2: "map (uint256S ex_chain) [ex_txid CHR ''b'', ex_txid CHR ''e''] = [98, 101]"
    by code_simp
  have d1: "distinct (map (uint256S ex_chain) [ex_txid CHR ''b'', ex_txid CHR ''d''])"
    unfolding i1 by simp
  have d2: "distinct (map (uint256S ex_chain) [ex_txid CHR ''b'', ex_txid CHR ''e''])"
    unfolding i2 by simp
  have f1: "find_pblockindex ex_chain
              (if [ex_txid CHR ''b'', ex_txid CHR ''d''] = [] then 0
               else uint256S ex_chain (last [ex_txid CHR ''b'', ex_txid CHR ''d'']))
              (Some (ex_txid CHR ''p'')) = Inr 1"
    by code_simp
  have f2: "find_pblockindex ex_chain
              (if [ex_txid CHR ''b'', ex_txid CHR ''e''] = [] then 0
               else uint256S ex_chain (last [ex_txid CHR ''b'', ex_txid CHR ''e'']))
              (Some (ex_txid CHR ''p'')) = Inr 1"
    by code_simp
  have r: "ReadBlockFromDisk ex_chain 1 = Some ex_block"
    by (simp add: ex_chain_def)
  have d: "distinct (vtx ex_block)"
    by (simp add: ex_block_def)
  have s1: "set [98, 100] \<subseteq> set (vtx ex_block)"
    by (simp add: ex_block_def)
  have s2: "\<not> set [98, 101] \<subseteq> set (vtx ex_block)"
    by (simp add: ex_block_def)
  from C5_all_or_nothing[rule_format, OF conjI, OF v1 conjI, OF d1 conjI, OF f1 conjI, OF r d,
      of "CMerkleBlock_build ex_H"] s1
  have a: "gettxoutproof (CMerkleBlock_build ex_H) ex_chain [ex_txid CHR ''b'', ex_txid CHR ''d'']
      (Some (ex_txid CHR ''p'')) = Inr (CMerkleBlock_build ex_H ex_block {98, 100})"
    unfolding i1 by simp
  from C5_all_or_nothing[rule_format, OF conjI, OF v2 conjI, OF d2 conjI, OF f2 conjI, OF r d,
      of "CMerkleBlock_build ex_H"] s2
  have b: "gettxoutproof (CMerkleBlock_build ex_H) ex_chain [ex_txid CHR ''b'', ex_txid CHR ''e'']
      (Some (ex_txid CHR ''p'')) =
     Inl (JSONRPCError RPC_INVALID_ADDRESS_OR_KEY
            ''(Not all) transactions not found in specified block'')"
    unfolding i2 by simp
  from a b show ?thesis by (rule conjI)
qed

text \<open>
  C5 as stated fails on the message: a request for \<open>b\<close> and \<open>e\<close>, of which \<open>e\<close> is not
  in the block, does not fail with \<open>not all transactions found in specified block\<close>.
\<close>

theorem C5_error_message_counterexample:
  "gettxoutproof (CMerkleBlock_build ex_H) ex_chain [ex_txid CHR ''b'', ex_txid CHR ''e'']
      (Some (ex_txid CHR ''p'')) \<noteq>
     Inl (JSONRPCError RPC_INVALID_ADDRESS_OR_KEY ''not all transactions found in specified block'')"
  by code_simp

text \<open>
  Claim C10. With an empty array of txids and the hash of a block that is in the block
  index and can be read, no transaction of the block is counted and no id is requested,
  the test on the two numbers passes, and \<^verbatim>\<open>gettxoutproof\<close> returns the proof
  that the constructor builds for the block and the empty set of ids. Built as the
  specification describes, that proof commits to no transaction: its replay recovers the
  root of the block and no id.
\<close>

theorem C10_empty_target_array_accepted:
  "(mapBlockIndex C (uint256S C blockhash) = Some pblockindex \<and>
    ReadBlockFromDisk C pblockindex = Some block \<longrightarrow>
      length (filter (\<lambda>tx. tx \<in> {}) (vtx block)) = card ({} :: uint256 set) \<and>
      gettxoutproof mkMerkleBlock C [] (Some blockhash) = Inr (mkMerkleBlock block {})) \<and>
   (vtx block \<noteq> [] \<longrightarrow>
      ExtractMatches H (txn (CMerkleBlock_build H block {})) =
        Inr (BlockMerkleRoot H (vtx block), []))"
  by (simp add: gettxoutproof_def find_pblockindex_def ExtractMatches_CMerkleBlock_build)

text \<open>
  The theorem of C10 at the example chain: the proof returned retains the root alone and
  marks no leaf.
\<close>

theorem C10_empty_target_array_accepted_witness:
  "gettxoutproof (CMerkleBlock_build ex_H) ex_chain [] (Some (ex_txid CHR ''p'')) =
     Inr \<lparr>mb_header = \<lparr>hashPrevBlock = 111, hashMerkleRoot = 6337, nTime = 0\<rparr>,
          txn = \<lparr>nTransactions = 4, vBits = [False], vHash = [6337]\<rparr>\<rparr> \<and>
   ExtractMatches ex_H \<lparr>nTransactions = 4, vBits = [False], vHash = [6337]\<rparr> = Inr (6337, [])"
proof -
  have m: "mapBlockIndex ex_chain (uint256S ex_chain (ex_txid CHR ''p'')) = Some 1"
    by code_simp
  have r: "ReadBlockFromDisk ex_chain 1 = Some ex_block"
    by (simp add: ex_chain_def)
  have v: "CMerkleBlock_build ex_H ex_block {} =
     \<lparr>mb_header = \<lparr>hashPrevBlock = 111, hashMerkleRoot = 6337, nTime = 0\<rparr>,
          txn = \<lparr>nTransactions = 4, vBits = [False], vHash = [6337]\<rparr>\<rparr>"
    by code_simp
  have n: "vtx ex_block \<noteq> []"
    by (simp add: ex_block_def)
  have b: "BlockMerkleRoot ex_H (vtx ex_block) = 6337"
    by code_simp
  from C10_empty_target_array_accepted[THEN conjunct1, rule_format, OF conjI, OF m r,
      of "CMerkleBlock_build ex_H"]
  have p1: "gettxoutproof (CMerkleBlock_build ex_H) ex_chain [] (Some (ex_txid CHR ''p'')) =
     Inr \<lparr>mb_header = \<lparr>hashPrevBlock = 111, hashMerkleRoot = 6337, nTime = 0\<rparr>,
          txn = \<lparr>nTransactions = 4, vBits = [False], vHash = [6337]\<rparr>\<rparr>"
    by (simp add: v)
  from C10_empty_target_array_accepted[THEN conjunct2, rule_format, OF n, of ex_H]
  have p2: "ExtractMatches ex_H \<lparr>nTransactions = 4, vBits = [False], vHash = [6337]\<rparr> = Inr (6337, [])"
    by (simp add: v b)
  from p1 p2 show ?thesis by (rule conjI)
qed

end
